theory Spec2Isabelle
  imports
    Complex_Main
    "HOL-Library.Char_ord"
    "HOL-Library.List_Lexorder"
    "HOL-Library.Product_Lexorder"
    "HOL-Library.Option_ord"
    "HOL-Library.Monad_Syntax"
    "HOL-Library.Multiset"
begin

section \<open>Container analysis tool: the data model\<close>

text \<open>
  The program (\<^verbatim>\<open>src/main.py\<close>) is one script: it reads the uploaded workbooks into tables,
  concatenates them, derives fields column by column, builds four grouped aggregates and writes
  five sheets. The tables are pandas data frames; they are modelled column by column, as the
  script uses them.

  Strings are lists of 8-bit characters: a text is the list of its UTF-8 bytes, and the
  characters of ASCII are the bytes below 128. The character functions below are Python's
  \<^verbatim>\<open>str.upper\<close>, \<^verbatim>\<open>str.lower\<close> and \<^verbatim>\<open>str.strip\<close> on ASCII text; the script is given with them
  where it trims (lines 62, 77 and 86), puts the importer in upper case (line 77) and a label
  in lower case (line 131). The normalisation of line 29 takes \<^verbatim>\<open>str.upper\<close> on other text from
  a parameter (\<open>unicode_upper\<close> below), which follows the case mapping of Unicode.
\<close>

subsection \<open>Strings\<close>

definition ascii_lowercase :: string where
  "ascii_lowercase = ''abcdefghijklmnopqrstuvwxyz''"

definition ascii_uppercase :: string where
  "ascii_uppercase = ''ABCDEFGHIJKLMNOPQRSTUVWXYZ''"

definition digits :: string where
  "digits = ''0123456789''"

definition whitespace :: string where
  "whitespace = [CHR 0x09, CHR 0x0A, CHR 0x0B, CHR 0x0C, CHR 0x0D,
                 CHR 0x1C, CHR 0x1D, CHR 0x1E, CHR 0x1F, CHR '' '']"

definition upper_char :: "char \<Rightarrow> char" where
  "upper_char c = (case map_of (zip ascii_lowercase ascii_uppercase) c of Some u \<Rightarrow> u | None \<Rightarrow> c)"

definition lower_char :: "char \<Rightarrow> char" where
  "lower_char c = (case map_of (zip ascii_uppercase ascii_lowercase) c of Some l \<Rightarrow> l | None \<Rightarrow> c)"

definition str_upper :: "string \<Rightarrow> string" where
  "str_upper s = map upper_char s"

definition str_lower :: "string \<Rightarrow> string" where
  "str_lower s = map lower_char s"

definition is_space :: "char \<Rightarrow> bool" where
  "is_space c = (c \<in> set whitespace)"

definition str_strip :: "string \<Rightarrow> string" where
  "str_strip s = rev (dropWhile is_space (rev (dropWhile is_space s)))"

text \<open>A byte of an ASCII character: its highest bit is not set.\<close>

definition is_ascii :: "char \<Rightarrow> bool" where
  "is_ascii c = (\<not> digit7 c)"

text \<open>\<^verbatim>\<open>k in s\<close> on strings: \<open>k\<close> occurs in \<open>s\<close> as a contiguous substring.\<close>

fun contains :: "string \<Rightarrow> string \<Rightarrow> bool" where
  "contains k [] = (k = [])"
| "contains k (c # cs) = (take (length k) (c # cs) = k \<or> contains k cs)"

text \<open>\<^verbatim>\<open>.str.replace(r'[^A-Z0-9 ]', '', regex=True)\<close>: every character outside the class
  is deleted.\<close>

definition kept_char :: "char \<Rightarrow> bool" where
  "kept_char c = (c \<in> set (ascii_uppercase @ digits @ '' ''))"

definition replace_non_alnum :: "string \<Rightarrow> string" where
  "replace_non_alnum s = filter kept_char s"

subsection \<open>Cells, columns and tables\<close>

text \<open>
  A cell of a worksheet is empty (pandas reads it as \<^verbatim>\<open>NaN\<close>), text, a number or a date.
  A number is a finite \<^verbatim>\<open>float64\<close> or \<^verbatim>\<open>int64\<close> value, each of which is a rational; what pandas
  computes from numbers (the sums of the aggregates) is a parameter, since it rounds or wraps.
  A timestamp keeps the fields that \<^verbatim>\<open>strftime('%B%d')\<close> reads. \<open>Lst\<close> is a Python list; it
  occurs only in the \<^verbatim>\<open>Products List\<close> column.
\<close>

datatype month = January | February | March | April | May | June | July
  | August | September | October | November | December

record timestamp =
  year :: int
  month :: month
  day :: nat

datatype cell = NaN | Str string | Num rat | Ts timestamp | Lst "cell list"

type_synonym series = "cell list"

text \<open>
  A data frame is the list of its columns in column order; \<open>'l\<close> is the type of the labels.
  All columns of a frame have the same length (pandas keeps it so). A label may occur more
  than once: \<^verbatim>\<open>read_excel\<close> makes the labels of a worksheet distinct, but line 62 trims them
  afterwards.
\<close>

type_synonym 'l table = "('l \<times> series) list"

type_synonym frame = "string table"

definition columns :: "'l table \<Rightarrow> 'l list" where
  "columns df = map fst df"

definition nrows :: "'l table \<Rightarrow> nat" where
  "nrows df = (case df of [] \<Rightarrow> 0 | (_, v) # _ \<Rightarrow> length v)"

text \<open>
  \<^verbatim>\<open>df[c]\<close> read as a column. \<open>None\<close> is the \<^verbatim>\<open>KeyError\<close> of a missing label. It also stands for
  a label that occurs more than once: \<^verbatim>\<open>df[c]\<close> is then a table, not a column, and what the
  script does with it next raises (the \<^verbatim>\<open>.str\<close> of lines 29, 77 and 86, \<^verbatim>\<open>pd.to_datetime\<close>,
  \<^verbatim>\<open>pd.to_numeric\<close>, \<^verbatim>\<open>groupby\<close> and \<^verbatim>\<open>sort_values\<close>).
\<close>

definition get_col :: "frame \<Rightarrow> string \<Rightarrow> series option" where
  "get_col df c = (case filter (\<lambda>(k, v). k = c) df of [(k, v)] \<Rightarrow> Some v | _ \<Rightarrow> None)"

text \<open>
  \<^verbatim>\<open>df[c] = v\<close>: every column with the label is replaced in place; when there is none, a new
  column is appended.
\<close>

definition set_col :: "frame \<Rightarrow> string \<Rightarrow> series \<Rightarrow> frame" where
  "set_col df c v =
     (if c \<in> set (columns df) then map (\<lambda>(k, w). if k = c then (k, v) else (k, w)) df
      else df @ [(c, v)])"

definition row_at :: "'l table \<Rightarrow> nat \<Rightarrow> cell list" where
  "row_at df i = map (\<lambda>(l, v). v ! i) df"

definition rows :: "'l table \<Rightarrow> cell list list" where
  "rows df = map (row_at df) [0..<nrows df]"

text \<open>\<^verbatim>\<open>Series.unique()\<close>: the distinct values in the order of their first occurrence.\<close>

definition unique :: "'a list \<Rightarrow> 'a list" where
  "unique xs = rev (remdups (rev xs))"

subsection \<open>Library functions taken as parameters\<close>

text \<open>
  What the script calls in Python, rapidfuzz and pandas and cannot be read off the script:

  \<^item> \<open>token_sort_ratio\<close>: the similarity score \<^verbatim>\<open>fuzz.token_sort_ratio\<close>, a float between 0 and
    100, every float being a rational;
  \<^item> \<open>unicode_upper\<close>: \<^verbatim>\<open>str.upper\<close> on a text that is not ASCII; Unicode's case mapping may
    change the length of a text (the sharp s becomes \<^verbatim>\<open>SS\<close>);
  \<^item> \<open>to_datetime\<close>: the parser behind \<^verbatim>\<open>pd.to_datetime(..., errors='coerce')\<close>, which may
    choose its format from the whole column and therefore receives it, and yields \<open>None\<close> for
    \<^verbatim>\<open>NaT\<close>;
  \<^item> \<open>datetimelike\<close>: whether \<^verbatim>\<open>pd.to_datetime(..., errors='coerce')\<close> makes a datetime column of
    the given column. It does not when the values have different time zones: the result is then
    a column of Python objects, on which \<^verbatim>\<open>.dt\<close> raises;
  \<^item> \<open>to_numeric\<close>: the parser behind \<^verbatim>\<open>pd.to_numeric(..., errors='coerce')\<close>, \<open>None\<close> for
    \<^verbatim>\<open>NaN\<close>;
  \<^item> \<open>group_sum\<close>: the sum that \<^verbatim>\<open>groupby(...)[col].sum()\<close> computes for one group, from the
    column \<^verbatim>\<open>col\<close> (whose dtype decides how numbers are added) and the numbers of the group in
    row order, the \<^verbatim>\<open>NaN\<close> cells left out. On a \<^verbatim>\<open>float64\<close> column every addition rounds, so that
    the result depends on the order of the rows; on an \<^verbatim>\<open>int64\<close> column the sum wraps around;
  \<^item> \<open>str_of\<close>: Python's \<^verbatim>\<open>str()\<close> of a cell that is neither empty nor text.

  With \<^verbatim>\<open>errors='coerce'\<close> both parsers return a value for every cell.
\<close>

record lib =
  token_sort_ratio :: "string \<Rightarrow> string \<Rightarrow> rat"
  unicode_upper :: "string \<Rightarrow> string"
  to_datetime :: "series \<Rightarrow> cell \<Rightarrow> timestamp option"
  datetimelike :: "series \<Rightarrow> bool"
  to_numeric :: "cell \<Rightarrow> rat option"
  group_sum :: "series \<Rightarrow> rat list \<Rightarrow> rat"
  str_of :: "cell \<Rightarrow> string"

text \<open>\<^verbatim>\<open>str.upper()\<close> on any text.\<close>

definition py_upper :: "lib \<Rightarrow> string \<Rightarrow> string" where
  "py_upper L s = (if list_all is_ascii s then str_upper s else unicode_upper L s)"

text \<open>\<^verbatim>\<open>.astype(str)\<close>: an empty cell becomes the text \<^verbatim>\<open>nan\<close>.\<close>

definition py_str :: "lib \<Rightarrow> cell \<Rightarrow> string" where
  "py_str L c = (case c of NaN \<Rightarrow> ''nan'' | Str s \<Rightarrow> s | _ \<Rightarrow> str_of L c)"

definition astype_str :: "lib \<Rightarrow> series \<Rightarrow> string list" where
  "astype_str L v = map (py_str L) v"

text \<open>
  \<^verbatim>\<open>pd.to_datetime(v, errors='coerce')\<close>, as far as lines 80 and 82 need it: the datetime
  column, or \<open>None\<close> when the result is no datetime column. The exception is that of
  \<^verbatim>\<open>df['Date'].dt\<close> in line 82; nothing but the assignment of line 80 lies between.
\<close>

definition to_datetime_values :: "lib \<Rightarrow> series \<Rightarrow> series" where
  "to_datetime_values L v = map (\<lambda>c. case to_datetime L v c of None \<Rightarrow> NaN | Some t \<Rightarrow> Ts t) v"

definition pd_to_datetime :: "lib \<Rightarrow> series \<Rightarrow> series option" where
  "pd_to_datetime L v = (if datetimelike L v then Some (to_datetime_values L v) else None)"

definition pd_to_numeric :: "lib \<Rightarrow> series \<Rightarrow> series" where
  "pd_to_numeric L v = map (\<lambda>c. case to_numeric L c of None \<Rightarrow> NaN | Some r \<Rightarrow> Num r) v"

text \<open>
  \<^verbatim>\<open>strftime('%B%d')\<close>: the full month name, as the default locale writes it, and the day of
  the month in two digits.
\<close>

fun month_name :: "month \<Rightarrow> string" where
  "month_name January = ''January''"
| "month_name February = ''February''"
| "month_name March = ''March''"
| "month_name April = ''April''"
| "month_name May = ''May''"
| "month_name June = ''June''"
| "month_name July = ''July''"
| "month_name August = ''August''"
| "month_name September = ''September''"
| "month_name October = ''October''"
| "month_name November = ''November''"
| "month_name December = ''December''"

definition digit_char :: "nat \<Rightarrow> char" where
  "digit_char n = digits ! (n mod 10)"

definition strftime_Bd :: "timestamp \<Rightarrow> string" where
  "strftime_Bd t = month_name (month t) @ [digit_char (day t div 10), digit_char (day t)]"

text \<open>\<^verbatim>\<open>.dt.strftime\<close> on a datetime column: \<^verbatim>\<open>NaT\<close> gives \<^verbatim>\<open>NaN\<close>.\<close>

definition dt_strftime :: "series \<Rightarrow> series" where
  "dt_strftime v = map (\<lambda>c. case c of Ts t \<Rightarrow> Str (strftime_Bd t) | _ \<Rightarrow> NaN) v"

text \<open>\<^verbatim>\<open>.replace("nan", np.nan)\<close> after \<^verbatim>\<open>.astype(str)\<close>.\<close>

definition replace_nan :: "string list \<Rightarrow> series" where
  "replace_nan v = map (\<lambda>s. if s = ''nan'' then NaN else Str s) v"

text \<open>\<^verbatim>\<open>+\<close> on text columns: where an operand is \<^verbatim>\<open>NaN\<close> the result is \<^verbatim>\<open>NaN\<close>.\<close>

definition add_scalar :: "series \<Rightarrow> string \<Rightarrow> series" where
  "add_scalar v s = map (\<lambda>c. case c of Str x \<Rightarrow> Str (x @ s) | _ \<Rightarrow> NaN) v"

definition add_series :: "series \<Rightarrow> series \<Rightarrow> series" where
  "add_series v w = map2 (\<lambda>a b. case (a, b) of (Str x, Str y) \<Rightarrow> Str (x @ y) | _ \<Rightarrow> NaN) v w"

definition fillna :: "series \<Rightarrow> series \<Rightarrow> series" where
  "fillna v w = map2 (\<lambda>c f. if c = NaN then f else c) v w"

section \<open>The script\<close>

subsection \<open>Lines 16 to 26: the constants\<close>

definition required_columns :: "string list" where
  "required_columns = [''Importer'', ''Date'', ''Master Bill Number'', ''Quantity'',
     ''Value(USD)'', ''Unit Price(USD)'', ''Description'']"

text \<open>The fifth entry is two adjacent string literals in the source, which Python joins.\<close>

definition ignore_columns_in_cleaned_sheet :: "string list" where
  "ignore_columns_in_cleaned_sheet =
    [''HS Code Description'', ''Importer Address'', ''Importer Contact'', ''Exporter Address'',
     ''Exporter ContactPackaging type'',
     ''Number of packages'', ''Package unit'', ''TEU'', ''Freight fee'', ''Insurance fee'',
     ''Loading Place'', ''Unloading Place'', ''Customs'', ''incoterms'', ''Carrier'', ''VOCC'',
     ''Vessel Name'', ''Voyage'', ''House Bill Number'', ''Customs Declaration Number'']"

subsection \<open>Lines 28 to 48: \<^verbatim>\<open>normalize_importer_names\<close>\<close>

text \<open>
  \<^verbatim>\<open>process.extractOne(name, unique_names, scorer=...)\<close> of rapidfuzz: the choice with the
  highest score, the earliest one among equals, with its score (the third component, the
  index, is ignored by the script); \<open>None\<close> when there is no choice.
\<close>

fun extractOne :: "(string \<Rightarrow> string \<Rightarrow> rat) \<Rightarrow> string \<Rightarrow> string list \<Rightarrow> (string \<times> rat) option" where
  "extractOne scorer query [] = None"
| "extractOne scorer query (c # cs) =
     Some (fold (\<lambda>choice (best, score).
                   if scorer query choice > score then (choice, scorer query choice)
                   else (best, score))
                cs (c, scorer query c))"

text \<open>
  The loop of lines 34 to 46 on the state \<^verbatim>\<open>(unique_names, name_mapping)\<close>. Unpacking the
  result of \<^verbatim>\<open>extractOne\<close> raises when it is \<^verbatim>\<open>None\<close>: the \<open>None\<close> of the model.
\<close>

fun dedup_loop :: "(string \<Rightarrow> string \<Rightarrow> rat) \<Rightarrow> rat \<Rightarrow> string list
    \<Rightarrow> string list \<times> (string \<rightharpoonup> string) \<Rightarrow> (string list \<times> (string \<rightharpoonup> string)) option" where
  "dedup_loop scorer threshold [] st = Some st"
| "dedup_loop scorer threshold (name # rest) (unique_names, name_mapping) =
     (if unique_names = [] then
        dedup_loop scorer threshold rest (unique_names @ [name], name_mapping(name \<mapsto> name))
      else
        (case extractOne scorer name unique_names of
           None \<Rightarrow> None
         | Some (match, score) \<Rightarrow>
             if score \<ge> threshold then
               dedup_loop scorer threshold rest (unique_names, name_mapping(name \<mapsto> match))
             else
               dedup_loop scorer threshold rest (unique_names @ [name], name_mapping(name \<mapsto> name))))"

text \<open>Line 29 on one importer string: upper case, delete, trim.\<close>

definition normalize_name :: "lib \<Rightarrow> string \<Rightarrow> string" where
  "normalize_name L s = str_strip (replace_non_alnum (py_upper L s))"

text \<open>
  The function: line 29 writes the column, line 34 reads it back (it holds the texts
  \<open>normalized\<close>), the loop runs over its distinct values, and line 48 returns the frame.
\<close>

definition normalize_importer_names :: "lib \<Rightarrow> rat \<Rightarrow> frame \<Rightarrow> frame option" where
  "normalize_importer_names L similarity_threshold df = do {
     importer \<leftarrow> get_col df ''Importer'';
     let normalized = map str_strip (map replace_non_alnum (map (py_upper L) (astype_str L importer)));
     let df = set_col df ''Normalized_Importer'' (map Str normalized);
     normalized_importer \<leftarrow> get_col df ''Normalized_Importer'';
     (unique_names, name_mapping) \<leftarrow>
        dedup_loop (token_sort_ratio L) similarity_threshold (unique normalized) ([], Map.empty);
     Some df
   }"

subsection \<open>Lines 50 to 74: reading the uploaded files\<close>

text \<open>
  An uploaded file is its name and what \<^verbatim>\<open>pd.read_excel(file, header=1)\<close> makes of it: an
  exception (its text) or a table. A label of that table is text or, when the header cell holds
  something else, a value without \<^verbatim>\<open>strip\<close>.
\<close>

datatype label = Name string | NonStr

record upload =
  file_name :: string
  read_excel :: "string + label table"

datatype message =
    Warning_empty string
  | Warning_missing string "string list"
  | Error_reading string "string option"
  | Success

text \<open>\<^verbatim>\<open>df.empty\<close> and \<^verbatim>\<open>df.dropna(how='all').shape[0]\<close>.\<close>

definition df_empty :: "'l table \<Rightarrow> bool" where
  "df_empty df = (df = [] \<or> nrows df = 0)"

definition dropna_all_count :: "'l table \<Rightarrow> nat" where
  "dropna_all_count df = length (filter (\<lambda>r. \<not> list_all (\<lambda>c. c = NaN) r) (rows df))"

text \<open>Line 62; \<open>None\<close> is the \<^verbatim>\<open>AttributeError\<close> of a label that is no text.\<close>

fun strip_columns :: "label table \<Rightarrow> frame option" where
  "strip_columns [] = Some []"
| "strip_columns ((Name col, v) # df) = map_option (\<lambda>df'. (str_strip col, v) # df') (strip_columns df)"
| "strip_columns ((NonStr, v) # df) = None"

text \<open>
  The body of the loop for one file: the frame appended to \<^verbatim>\<open>all_data\<close>, if any, and the
  messages shown. \<open>Error_reading\<close> carries the text of the exception of \<^verbatim>\<open>read_excel\<close>, or
  \<open>None\<close> for the \<^verbatim>\<open>AttributeError\<close>.
\<close>

definition ingest_file :: "upload \<Rightarrow> frame option \<times> message list" where
  "ingest_file file =
     (case read_excel file of
        Inl e \<Rightarrow> (None, [Error_reading (file_name file) (Some e)])
      | Inr raw \<Rightarrow>
          let df = drop 1 raw in
          if df_empty df \<or> dropna_all_count df = 0 then
            (None, [Warning_empty (file_name file)])
          else
            (case strip_columns df of
               None \<Rightarrow> (None, [Error_reading (file_name file) None])
             | Some df \<Rightarrow>
                 let missing = filter (\<lambda>col. col \<notin> set (columns df)) required_columns in
                 if missing \<noteq> [] then
                   (None, [Warning_missing (file_name file) missing])
                 else
                   (Some (set_col df ''source_file'' (replicate (nrows df) (Str (file_name file)))),
                    [])))"

fun ingest_loop :: "upload list \<Rightarrow> frame list \<times> message list \<Rightarrow> frame list \<times> message list" where
  "ingest_loop [] st = st"
| "ingest_loop (file # files) (all_data, msgs) =
     (case ingest_file file of
        (None, m) \<Rightarrow> ingest_loop files (all_data, msgs @ m)
      | (Some df, m) \<Rightarrow> ingest_loop files (all_data @ [df], msgs @ m))"

subsection \<open>Lines 76 to 93: the unified table and its derived fields\<close>

text \<open>
  \<^verbatim>\<open>pd.concat(all_data, ignore_index=True)\<close>. When no frame has a label twice: the labels of
  all frames in the order of their first occurrence, the rows of the frames one after the
  other, \<^verbatim>\<open>NaN\<close> where a frame lacks a column. When a frame has a label twice, the frames are
  joined column by column if they all have the same list of labels; otherwise pandas cannot
  align them and raises (\<^verbatim>\<open>InvalidIndexError\<close>). It raises on the empty list as well, which line
  73 keeps away.
\<close>

definition pd_concat :: "frame list \<Rightarrow> frame option" where
  "pd_concat dfs =
     (if dfs = [] then None
      else if list_all (\<lambda>df. distinct (columns df)) dfs then
        Some (map (\<lambda>c. (c, concat (map (\<lambda>df. case get_col df c of
                                                 Some v \<Rightarrow> v
                                               | None \<Rightarrow> replicate (nrows df) NaN) dfs)))
                  (unique (concat (map columns dfs))))
      else if list_all (\<lambda>df. columns df = columns (hd dfs)) dfs then
        Some (map (\<lambda>j. (columns (hd dfs) ! j, concat (map (\<lambda>df. snd (df ! j)) dfs)))
                  [0..<length (hd dfs)])
      else None)"

text \<open>
  Lines 77 to 93, one step for each read and each assignment; \<open>None\<close> when a line raises. With
  a repeated label the exception may come some lines after the read that fails here (with
  Master Bill Number twice, lines 83 and 84 work on tables and it is the \<^verbatim>\<open>.str\<close> of line 86
  that raises); no line in between has another effect.
\<close>

definition derive :: "lib \<Rightarrow> frame \<Rightarrow> frame option" where
  "derive L df = do {
     importer \<leftarrow> get_col df ''Importer'';
     let df = set_col df ''Importer'' (map Str (map str_upper (map str_strip (astype_str L importer))));
     df \<leftarrow> normalize_importer_names L 90 df;

     date \<leftarrow> get_col df ''Date'';
     date \<leftarrow> pd_to_datetime L date;
     let df = set_col df ''Date'' date;

     date \<leftarrow> get_col df ''Date'';
     let df = set_col df ''Date_str'' (dt_strftime date);
     mbn \<leftarrow> get_col df ''Master Bill Number'';
     let df = set_col df ''Master Bill Number'' (replace_nan (astype_str L mbn));
     mbn \<leftarrow> get_col df ''Master Bill Number'';
     importer \<leftarrow> get_col df ''Importer'';
     date_str \<leftarrow> get_col df ''Date_str'';
     let df = set_col df ''Master Bill Number''
                (fillna mbn (add_series (add_scalar importer '' '') date_str));

     mbn \<leftarrow> get_col df ''Master Bill Number'';
     let df = set_col df ''Unique Master Bill Number'' (map Str (map str_strip (astype_str L mbn)));
     umbn \<leftarrow> get_col df ''Unique Master Bill Number'';
     let df = set_col df ''Container Name'' umbn;

     quantity \<leftarrow> get_col df ''Quantity'';
     let df = set_col df ''Quantity'' (pd_to_numeric L quantity);
     quantity \<leftarrow> get_col df ''Quantity'';
     let df = set_col df ''Weight (kgs)'' quantity;
     value \<leftarrow> get_col df ''Value(USD)'';
     let df = set_col df ''Value (USD)'' (pd_to_numeric L value);
     unit_price \<leftarrow> get_col df ''Unit Price(USD)'';
     let df = set_col df ''Unit Price (USD)'' (pd_to_numeric L unit_price);
     value \<leftarrow> get_col df ''Value (USD)'';
     let df = set_col df ''Shipment Cost'' value;
     Some df
   }"

subsection \<open>Lines 95 to 119: the four aggregates\<close>

text \<open>
  \<^verbatim>\<open>groupby\<close> sorts the groups by their keys. Text keys compare as Python strings do; the
  Container Name and Importer keys are always text. For keys of different kinds pandas puts
  numbers before text; the place of the other kinds is a choice of the model.
\<close>

fun month_index :: "month \<Rightarrow> nat" where
  "month_index January = 1"
| "month_index February = 2"
| "month_index March = 3"
| "month_index April = 4"
| "month_index May = 5"
| "month_index June = 6"
| "month_index July = 7"
| "month_index August = 8"
| "month_index September = 9"
| "month_index October = 10"
| "month_index November = 11"
| "month_index December = 12"

fun cell_key :: "cell \<Rightarrow> nat \<times> rat \<times> string" where
  "cell_key (Num r) = (0, r, [])"
| "cell_key (Ts t) = (1, of_int (year t * 10000 + int (month_index (month t) * 100 + day t)), [])"
| "cell_key (Str s) = (2, 0, s)"
| "cell_key NaN = (3, 0, [])"
| "cell_key (Lst xs) = (4, 0, [])"

text \<open>
  \<^verbatim>\<open>df.groupby(by)[col].agg(f).reset_index(name=out)\<close> with the defaults \<^verbatim>\<open>sort=True\<close> and
  \<^verbatim>\<open>dropna=True\<close>: a row with \<^verbatim>\<open>NaN\<close> in one of its keys belongs to no group. The result has
  the key columns and one column of aggregated values, one row for each group.
\<close>

definition group_keys :: "series list \<Rightarrow> nat \<Rightarrow> cell list list" where
  "group_keys keycols n = map (\<lambda>i. map (\<lambda>k. k ! i) keycols) [0..<n]"

definition groups_of :: "cell list list \<Rightarrow> cell list list" where
  "groups_of keys = sort_key (map cell_key) (unique (filter (\<lambda>k. NaN \<notin> set k) keys))"

definition group_values :: "cell list list \<Rightarrow> series \<Rightarrow> cell list \<Rightarrow> cell list" where
  "group_values keys vals g = map snd (filter (\<lambda>(k, v). k = g) (zip keys vals))"

text \<open>
  The aggregating function receives the column \<^verbatim>\<open>col\<close> and the cells of the group; it is
  \<open>agg_sum L\<close> for \<^verbatim>\<open>.sum()\<close> and \<open>agg_products\<close> for the \<^verbatim>\<open>lambda\<close> of line 97.
\<close>

definition groupby_agg :: "frame \<Rightarrow> string list \<Rightarrow> string \<Rightarrow> (series \<Rightarrow> cell list \<Rightarrow> cell) \<Rightarrow> string \<Rightarrow> frame option" where
  "groupby_agg df by col agg out = do {
     keycols \<leftarrow> those (map (get_col df) by);
     vals \<leftarrow> get_col df col;
     let keys = group_keys keycols (nrows df);
     let groups = groups_of keys;
     Some (map (\<lambda>(j, name). (name, map (\<lambda>g. g ! j) groups)) (enumerate 0 by)
           @ [(out, map (\<lambda>g. agg vals (group_values keys vals g)) groups)])
   }"

text \<open>\<^verbatim>\<open>.sum()\<close> skips \<^verbatim>\<open>NaN\<close> and adds the numbers of the group as pandas does.\<close>

fun num_of :: "cell \<Rightarrow> rat option" where
  "num_of (Num r) = Some r"
| "num_of _ = None"

definition agg_sum :: "lib \<Rightarrow> series \<Rightarrow> cell list \<Rightarrow> cell" where
  "agg_sum L col x = Num (group_sum L col (List.map_filter num_of x))"

text \<open>\<^verbatim>\<open>lambda x: list(x.dropna().unique())\<close>\<close>

definition agg_products :: "series \<Rightarrow> cell list \<Rightarrow> cell" where
  "agg_products col x = Lst (unique (filter (\<lambda>c. c \<noteq> NaN) x))"

fun py_len :: "cell \<Rightarrow> cell" where
  "py_len (Lst xs) = Num (of_nat (length xs))"
| "py_len (Str s) = Num (of_nat (length s))"
| "py_len c = NaN"

definition insert_col :: "frame \<Rightarrow> nat \<Rightarrow> string \<Rightarrow> series \<Rightarrow> frame" where
  "insert_col df loc column v = take loc df @ [(column, v)] @ drop loc df"

definition products_per_container :: "frame \<Rightarrow> frame option" where
  "products_per_container df = do {
     t \<leftarrow> groupby_agg df [''Container Name''] ''Description'' agg_products ''Products List'';
     products_list \<leftarrow> get_col t ''Products List'';
     Some (insert_col t 1 ''Total Products in Container'' (map py_len products_list))
   }"

definition weight_per_product :: "lib \<Rightarrow> frame \<Rightarrow> frame option" where
  "weight_per_product L df =
     groupby_agg df [''Container Name'', ''Description''] ''Weight (kgs)'' (agg_sum L) ''Weight (kgs)''"

definition shipment_cost_per_container :: "lib \<Rightarrow> frame \<Rightarrow> frame option" where
  "shipment_cost_per_container L df =
     groupby_agg df [''Container Name''] ''Shipment Cost'' (agg_sum L) ''Total Shipment Cost (USD)''"

definition revenue_per_importer :: "lib \<Rightarrow> frame \<Rightarrow> frame option" where
  "revenue_per_importer L df =
     groupby_agg df [''Importer''] ''Value (USD)'' (agg_sum L) ''Total Value(USD) per Importer''"

subsection \<open>Lines 124 to 140: \<^verbatim>\<open>write_sheet\<close>\<close>

text \<open>
  \<^verbatim>\<open>pd.api.types.is_numeric_dtype\<close>: a column read from a worksheet, concatenated or computed
  by the script has a numeric dtype exactly when each of its cells is a number or \<^verbatim>\<open>NaN\<close>
  (the all-\<^verbatim>\<open>NaN\<close> columns Date, Date_str and Master Bill Number apart, whose names hold none
  of the keywords).
\<close>

fun is_num_cell :: "cell \<Rightarrow> bool" where
  "is_num_cell NaN = True"
| "is_num_cell (Num r) = True"
| "is_num_cell _ = False"

definition is_numeric_dtype :: "series \<Rightarrow> bool" where
  "is_numeric_dtype v = list_all is_num_cell v"

definition sort_keywords :: "string list" where
  "sort_keywords = [''cost'', ''revenue'', ''weight'', ''value'']"

definition is_sort_candidate :: "string \<times> series \<Rightarrow> bool" where
  "is_sort_candidate = (\<lambda>(col, v). list_ex (\<lambda>k. contains k (str_lower col)) sort_keywords
                                   \<and> is_numeric_dtype v)"

text \<open>\<^verbatim>\<open>next((col for col in df_sheet.columns if ...), None)\<close>\<close>

definition find_sort_col :: "frame \<Rightarrow> string option" where
  "find_sort_col df = (case filter is_sort_candidate df of [] \<Rightarrow> None | (col, v) # _ \<Rightarrow> Some col)"

text \<open>
  \<^verbatim>\<open>sort_values(by=col, ascending=False)\<close> is pandas' \<^verbatim>\<open>nargsort\<close>: the positions of the
  numbers are reversed, sorted by ascending value and reversed again, and the positions of the
  \<^verbatim>\<open>NaN\<close> cells follow. The model sorts stably; numpy's default sort leaves the order of equal
  values open.
\<close>

definition nargsort_desc :: "rat option list \<Rightarrow> nat list" where
  "nargsort_desc items =
     (let idx = [0..<length items];
          non_nan_idx = filter (\<lambda>i. items ! i \<noteq> None) idx;
          nan_idx = filter (\<lambda>i. items ! i = None) idx
      in rev (sort_key (\<lambda>i. items ! i) (rev non_nan_idx)) @ nan_idx)"

definition take_rows :: "frame \<Rightarrow> nat list \<Rightarrow> frame" where
  "take_rows df indexer = map (\<lambda>(col, v). (col, map (\<lambda>i. v ! i) indexer)) df"

definition sort_values_desc :: "frame \<Rightarrow> string \<Rightarrow> frame option" where
  "sort_values_desc df by = do {
     v \<leftarrow> get_col df by;
     Some (take_rows df (nargsort_desc (map num_of v)))
   }"

text \<open>
  The table that \<^verbatim>\<open>write_sheet\<close> hands to \<^verbatim>\<open>to_excel\<close>. The formatting that follows (frozen
  header, bold header cells, widths and number formats) does not change the table; what is kept
  of it is that it raises on a label that occurs twice (\<^verbatim>\<open>df_sheet[value]\<close> is then a table and
  \<^verbatim>\<open>not df_sheet[value].isnull().all()\<close> in line 152 has no truth value).
  \<^verbatim>\<open>if drop_columns:\<close> and \<^verbatim>\<open>if sort_col:\<close> test for a non-empty value; \<open>drop_listed\<close> is
  lines 125 and 126.
\<close>

definition drop_listed :: "frame \<Rightarrow> string list option \<Rightarrow> frame" where
  "drop_listed df_sheet drop_columns =
     (case drop_columns of
        None \<Rightarrow> df_sheet
      | Some cs \<Rightarrow>
          if cs = [] then df_sheet
          else filter (\<lambda>(col, v). col \<notin> set (filter (\<lambda>col. col \<in> set (columns df_sheet)) cs))
                      df_sheet)"

definition write_sheet :: "frame \<Rightarrow> string list option \<Rightarrow> frame option" where
  "write_sheet df_sheet drop_columns = do {
     let df_sheet = drop_listed df_sheet drop_columns;
     df_sheet \<leftarrow> (case find_sort_col df_sheet of
                    None \<Rightarrow> Some df_sheet
                  | Some sort_col \<Rightarrow> if sort_col = [] then Some df_sheet
                                     else sort_values_desc df_sheet sort_col);
     if distinct (columns df_sheet) then Some df_sheet else None
   }"

subsection \<open>The whole run\<close>

text \<open>
  Lines 76 to 171 on the list \<^verbatim>\<open>all_data\<close>: the five sheets in the order they are written,
  or \<open>None\<close> when a step raises.
\<close>

definition report :: "lib \<Rightarrow> frame list \<Rightarrow> (string \<times> frame) list option" where
  "report L all_data = do {
     df \<leftarrow> pd_concat all_data;
     df \<leftarrow> derive L df;
     products \<leftarrow> products_per_container df;
     weight \<leftarrow> weight_per_product L df;
     shipment_cost \<leftarrow> shipment_cost_per_container L df;
     revenue \<leftarrow> revenue_per_importer L df;
     s1 \<leftarrow> write_sheet df (Some ignore_columns_in_cleaned_sheet);
     s2 \<leftarrow> write_sheet products None;
     s3 \<leftarrow> write_sheet weight None;
     s4 \<leftarrow> write_sheet shipment_cost None;
     s5 \<leftarrow> write_sheet revenue None;
     Some [(''Cleaned Data'', s1), (''Products per Container'', s2), (''Weight per Product'', s3),
           (''Shipment Cost'', s4), (''Total Value per Importer'', s5)]
   }"

text \<open>
  What a run of the script leaves: nothing when no file was uploaded (line 50), a halt at
  \<^verbatim>\<open>st.stop()\<close> with the messages shown so far, an uncaught exception, or the success message
  and the download of the workbook.
\<close>

datatype outcome =
    Idle
  | Stopped "message list"
  | Raised "message list"
  | Download "message list" "(string \<times> frame) list"

definition run :: "lib \<Rightarrow> upload list \<Rightarrow> outcome" where
  "run L uploaded_files =
     (if uploaded_files = [] then Idle
      else
        let (all_data, msgs) = ingest_loop uploaded_files ([], []) in
        if all_data = [] then Stopped msgs
        else (case report L all_data of
                None \<Rightarrow> Raised msgs
              | Some sheets \<Rightarrow> Download (msgs @ [Success]) sheets))"

fun artifact :: "outcome \<Rightarrow> (string \<times> frame) list option" where
  "artifact (Download msgs sheets) = Some sheets"
| "artifact _ = None"

section \<open>Notions used in the statements\<close>

text \<open>
  A best match of \<open>name\<close> among the canonical forms: a form whose score no other form exceeds.
\<close>

definition is_best_match :: "(string \<Rightarrow> string \<Rightarrow> rat) \<Rightarrow> string \<Rightarrow> string list \<Rightarrow> string \<Rightarrow> bool" where
  "is_best_match scorer name canonical m =
     (m \<in> set canonical \<and> list_all (\<lambda>c. scorer name c \<le> scorer name m) canonical)"

text \<open>
  Two strings that differ only by letter case, by punctuation or by leading and trailing
  whitespace: the smallest equivalence that relates a string to the same string with one
  character replaced by its other case, with one punctuation character inserted, or with
  whitespace put in front of it or behind it. A punctuation character is one that is no letter,
  no digit and no space, so that upper-casing does not turn it into a character of the class
  \<^verbatim>\<open>[A-Z0-9 ]\<close>. The letters, and the two cases of a letter, are those of ASCII.
\<close>

definition is_punct :: "char \<Rightarrow> bool" where
  "is_punct c = (c \<notin> set (ascii_lowercase @ ascii_uppercase @ digits @ '' ''))"

inductive differ_only :: "string \<Rightarrow> string \<Rightarrow> bool" where
  same: "differ_only s s"
| swap: "differ_only s t \<Longrightarrow> differ_only t s"
| chain: "differ_only s t \<Longrightarrow> differ_only t u \<Longrightarrow> differ_only s u"
| letter_case: "upper_char c = upper_char d \<Longrightarrow> differ_only (xs @ c # ys) (xs @ d # ys)"
| punctuation: "is_punct p \<Longrightarrow> differ_only (xs @ p # ys) (xs @ ys)"
| leading: "list_all is_space ws \<Longrightarrow> differ_only (ws @ s) s"
| trailing: "list_all is_space ws \<Longrightarrow> differ_only (s @ ws) s"

text \<open>
  A frame is rectangular when its columns have the same length. A unified table on which
  lines 77 to 93 are studied is rectangular, has no label twice and has the required columns.
\<close>

definition rectangular :: "'l table \<Rightarrow> bool" where
  "rectangular df = list_all (\<lambda>(c, v). length v = nrows df) df"

definition unified_ok :: "frame \<Rightarrow> bool" where
  "unified_ok df = (rectangular df \<and> distinct (columns df)
     \<and> list_all (\<lambda>c. c \<in> set (columns df)) required_columns)"

definition col_of :: "frame \<Rightarrow> string \<Rightarrow> series" where
  "col_of df c = (case get_col df c of Some v \<Rightarrow> v | None \<Rightarrow> [])"

definition cell_at :: "frame \<Rightarrow> string \<Rightarrow> nat \<Rightarrow> cell" where
  "cell_at df c i = col_of df c ! i"

text \<open>The labels that lines 77 to 93 assign.\<close>

definition derived_labels :: "string list" where
  "derived_labels = [''Importer'', ''Normalized_Importer'', ''Date'', ''Date_str'',
     ''Master Bill Number'', ''Unique Master Bill Number'', ''Container Name'', ''Quantity'',
     ''Weight (kgs)'', ''Value (USD)'', ''Unit Price (USD)'', ''Shipment Cost'']"

definition has_rows :: "nat \<Rightarrow> 'l table \<Rightarrow> bool" where
  "has_rows n df = (rectangular df \<and> nrows df = n)"

text \<open>A cell of the derived table, if the derivation returns.\<close>

definition derived_cell :: "lib \<Rightarrow> frame \<Rightarrow> string \<Rightarrow> nat \<Rightarrow> cell option" where
  "derived_cell L df c i = map_option (\<lambda>df'. cell_at df' c i) (derive L df)"

text \<open>
  The sum of a column over the rows of a table whose Container Name is \<open>name\<close>, an empty cell
  counting 0; and the same sum over the rows that have a Description as well. These are sums
  of rationals, without rounding.
\<close>

fun num_or_zero :: "cell \<Rightarrow> rat" where
  "num_or_zero (Num r) = r"
| "num_or_zero _ = 0"

definition container_total :: "frame \<Rightarrow> string \<Rightarrow> cell \<Rightarrow> rat" where
  "container_total t c name =
     sum_list (map (\<lambda>i. num_or_zero (cell_at t c i))
                   (filter (\<lambda>i. cell_at t ''Container Name'' i = name) [0..<nrows t]))"


text \<open>
  For the unified table \<open>df\<close>: the total of the Weight per Product aggregate for a container,
  and the total of the derived Quantity column for it.
\<close>

definition aggregate_weight :: "lib \<Rightarrow> frame \<Rightarrow> cell \<Rightarrow> rat option" where
  "aggregate_weight L df name = do {
     df' \<leftarrow> derive L df;
     w \<leftarrow> weight_per_product L df';
     Some (container_total w ''Weight (kgs)'' name)
   }"

definition derived_weight :: "lib \<Rightarrow> frame \<Rightarrow> cell \<Rightarrow> rat option" where
  "derived_weight L df name = do {
     df' \<leftarrow> derive L df;
     Some (container_total df' ''Quantity'' name)
   }"



text \<open>The frames appended to \<^verbatim>\<open>all_data\<close> and the messages shown by the loop of lines 53 to 71.\<close>

definition accepted :: "upload list \<Rightarrow> frame list" where
  "accepted files = concat (map (\<lambda>file. case fst (ingest_file file) of None \<Rightarrow> [] | Some df \<Rightarrow> [df]) files)"

definition shown :: "upload list \<Rightarrow> message list" where
  "shown files = concat (map (\<lambda>file. snd (ingest_file file)) files)"

section \<open>Example inputs\<close>

text \<open>
  A scorer and parsers to evaluate the script on: equal names score 100, the pair of the
  specification's example scores 93, every other pair 20; a date cell parses to itself and a
  number cell to itself, everything else is unparsable; every column parses to a datetime
  column; the sums are exact.

  \<open>example_upper\<close> is \<^verbatim>\<open>str.upper\<close> on the texts made of ASCII characters, of the sharp s
  (U+00DF, the bytes C3 9F), whose upper case is \<^verbatim>\<open>SS\<close>, and of characters that
  \<^verbatim>\<open>str.upper\<close> leaves alone, as it does the capital sharp s (U+1E9E, the bytes E1 BA 9E) and
  the Kelvin sign (U+212A, the bytes E2 84 AA), which are upper-case letters.
\<close>

fun example_upper :: "string \<Rightarrow> string" where
  "example_upper [] = []"
| "example_upper [c] = [upper_char c]"
| "example_upper (c # d # cs) =
     (if c = CHR 0xC3 \<and> d = CHR 0x9F then ''SS'' @ example_upper cs
      else upper_char c # example_upper (d # cs))"

definition sharp_s :: string where
  "sharp_s = [CHR 0xC3, CHR 0x9F]"

definition capital_sharp_s :: string where
  "capital_sharp_s = [CHR 0xE1, CHR 0xBA, CHR 0x9E]"

definition kelvin_sign :: string where
  "kelvin_sign = [CHR 0xE2, CHR 0x84, CHR 0xAA]"

definition example_scorer :: "string \<Rightarrow> string \<Rightarrow> rat" where
  "example_scorer a b =
     (if a = b then 100
      else if a = ''ACME CORPORATION'' \<and> b = ''ACME CORP'' then 93
      else 20)"

definition example_lib :: lib where
  "example_lib = \<lparr>
     token_sort_ratio = example_scorer,
     unicode_upper = example_upper,
     to_datetime = (\<lambda>v c. case c of Ts t \<Rightarrow> Some t | _ \<Rightarrow> None),
     datetimelike = (\<lambda>v. True),
     to_numeric = (\<lambda>c. case c of Num r \<Rightarrow> Some r | _ \<Rightarrow> None),
     group_sum = (\<lambda>col x. sum_list x),
     str_of = (\<lambda>c. ''?'') \<rparr>"

definition jan05 :: timestamp where
  "jan05 = \<lparr>year = 2024, month = January, day = 5\<rparr>"

text \<open>A unified table of one row.\<close>

definition one_row :: "cell \<Rightarrow> cell \<Rightarrow> cell \<Rightarrow> cell \<Rightarrow> cell \<Rightarrow> frame" where
  "one_row importer date bill quantity description =
     [(''Importer'', [importer]), (''Date'', [date]), (''Master Bill Number'', [bill]),
      (''Quantity'', [quantity]), (''Value(USD)'', [Num 500]), (''Unit Price(USD)'', [Num 5]),
      (''Description'', [description]), (''source_file'', [Str ''a.xlsx''])]"

definition flat_scorer :: "string \<Rightarrow> string \<Rightarrow> rat" where
  "flat_scorer a b = 0"

definition acme_row :: frame where
  "acme_row = one_row (Str ''Acme Corp.'') (Ts jan05) (Str ''MB1'') (Num 100) (Str ''Widgets'')"

text \<open>Three uploads: one that does not read, one without the required columns, one complete.\<close>

definition unreadable_file :: upload where
  "unreadable_file = \<lparr>file_name = ''bad.xlsx'', read_excel = Inl ''not a workbook''\<rparr>"

definition short_file :: upload where
  "short_file = \<lparr>file_name = ''short.xlsx'',
     read_excel = Inr [(NonStr, [Num 0]), (Name ''Importer '', [Str ''Acme'']),
                       (Name ''Date'', [Ts jan05])]\<rparr>"

definition good_file :: upload where
  "good_file = \<lparr>file_name = ''good.xlsx'',
     read_excel = Inr [(NonStr, [Num 0, Num 1]),
       (Name ''Importer '', [Str ''Acme Corp'', Str ''Zeta'']),
       (Name ''Date'', [Ts jan05, NaN]),
       (Name ''Master Bill Number'', [Str ''MB1 '', NaN]),
       (Name ''Quantity'', [Num 100, Num 7]),
       (Name ''Value(USD)'', [Num 500, Num 900]),
       (Name ''Unit Price(USD)'', [Num 5, Num 1]),
       (Name ''Description'', [Str ''Widgets'', NaN])]\<rparr>"

definition cost_sheet :: frame where
  "cost_sheet = [(''Container Name'', [Str ''MB1'', Str ''MB2'', Str ''MB3'']),
                 (''Total Shipment Cost (USD)'', [Num 200, NaN, Num 500])]"

definition good_table :: frame where
  "good_table = (case pd_concat (accepted [good_file]) of Some df \<Rightarrow> df | None \<Rightarrow> [])"




section \<open>Properties\<close>

subsection \<open>The normalisation of importer names\<close>

lemma kept_upper_iff: "kept_char (upper_char c) \<longleftrightarrow> \<not> is_punct c"
  unfolding kept_char_def is_punct_def upper_char_def ascii_lowercase_def ascii_uppercase_def digits_def
  by (auto split: option.splits if_splits)

lemma space_kept: "is_space c \<Longrightarrow> kept_char (upper_char c) \<Longrightarrow> upper_char c = CHR '' ''"
  unfolding kept_char_def is_space_def whitespace_def upper_char_def ascii_lowercase_def ascii_uppercase_def digits_def
  by (auto split: option.splits if_splits)

lemma upper_char_idem: "upper_char (upper_char c) = upper_char c"
  unfolding upper_char_def ascii_lowercase_def ascii_uppercase_def
  by (auto split: option.splits if_splits)

lemma is_space_blank: "is_space (CHR '' '')"
  by (simp add: is_space_def whitespace_def)

lemma kept_space_is_blank: "kept_char c \<Longrightarrow> is_space c \<Longrightarrow> c = CHR '' ''"
  unfolding kept_char_def is_space_def whitespace_def ascii_uppercase_def digits_def
  by auto

lemma strip_leading: "list_all is_space ws \<Longrightarrow> str_strip (ws @ s) = str_strip s"
  by (simp add: str_strip_def list_all_iff dropWhile_append)

lemma dropWhile_all: "list_all P xs \<Longrightarrow> dropWhile P xs = []"
  by (simp add: list_all_iff)

lemma strip_trailing:
  assumes "list_all is_space ws"
  shows "str_strip (s @ ws) = str_strip s"
proof (cases "list_all is_space s")
  case True
  with assms have "list_all is_space (s @ ws)" by simp
  then have "dropWhile is_space (s @ ws) = []" by (rule dropWhile_all)
  moreover from True have "dropWhile is_space s = []" by (rule dropWhile_all)
  ultimately show ?thesis unfolding str_strip_def by (simp only:)
next
  case False
  then obtain x where x: "x \<in> set s" "\<not> is_space x" by (auto simp: list_all_iff)
  then have "dropWhile is_space (s @ ws) = dropWhile is_space s @ ws"
    by (simp add: dropWhile_append1)
  moreover from assms have "dropWhile is_space (rev ws @ r) = dropWhile is_space r" for r
    by (simp add: list_all_iff dropWhile_append)
  ultimately show ?thesis by (simp add: str_strip_def)
qed

lemma filter_spaces:
  "list_all is_space ws \<Longrightarrow> list_all is_space (replace_non_alnum (str_upper ws))"
  by (induction ws) (auto simp: replace_non_alnum_def str_upper_def space_kept is_space_blank)

lemma normalize_append:
  "replace_non_alnum (str_upper (xs @ ys)) = replace_non_alnum (str_upper xs) @ replace_non_alnum (str_upper ys)"
  by (simp add: replace_non_alnum_def str_upper_def)

text \<open>On ASCII text the normalisation is upper case letter by letter, delete, trim.\<close>

lemma normalize_name_ascii:
  "list_all is_ascii s \<Longrightarrow> normalize_name L s = str_strip (replace_non_alnum (str_upper s))"
  by (simp add: normalize_name_def py_upper_def)

lemma differ_only_ascii_normal_form:
  assumes "differ_only s t"
  shows "str_strip (replace_non_alnum (str_upper s)) = str_strip (replace_non_alnum (str_upper t))"
  using assms
proof (induction rule: differ_only.induct)
  case (letter_case c d xs ys)
  then show ?case by (simp add: str_upper_def)
next
  case (punctuation p xs ys)
  then show ?case
    by (simp add: str_upper_def replace_non_alnum_def kept_upper_iff)
next
  case (leading ws s)
  then show ?case
    by (simp add: normalize_append strip_leading filter_spaces)
next
  case (trailing ws s)
  then show ?case
    by (simp add: normalize_append strip_trailing filter_spaces)
qed simp_all

text \<open>
  C4, as the script has it: two importer strings of ASCII characters that differ only by
  letter case, by punctuation or by leading and trailing whitespace have the same normalised
  string (upper case, every character outside \<^verbatim>\<open>[A-Z0-9 ]\<close> deleted, trimmed), whatever the
  fuzzy matching does afterwards.
\<close>

theorem normalize_name_invariant:
  assumes "differ_only s t" and "list_all is_ascii s" and "list_all is_ascii t"
  shows "normalize_name L s = normalize_name L t"
  using differ_only_ascii_normal_form[OF assms(1)] assms(2,3)
  by (simp add: normalize_name_ascii)

text \<open>
  As the specification words it, for every pair of strings, the property fails outside
  ASCII, where \<^verbatim>\<open>str.upper\<close> follows Unicode and the class \<^verbatim>\<open>[A-Z0-9 ]\<close> does not. The Kelvin
  sign is an upper-case letter whose lower case is \<^verbatim>\<open>k\<close>: \<^verbatim>\<open>str.upper\<close> leaves it alone and the
  deletion removes it, while \<^verbatim>\<open>k\<close> becomes \<^verbatim>\<open>K\<close>. The sharp s becomes \<^verbatim>\<open>SS\<close>, while the capital
  sharp s, the same letter in upper case, is deleted.
\<close>

theorem normalize_name_invariant_counterexample:
  "py_upper example_lib ''k'' = ''K'' \<and> py_upper example_lib kelvin_sign = kelvin_sign
   \<and> normalize_name example_lib ''k'' = ''K'' \<and> normalize_name example_lib kelvin_sign = []
   \<and> py_upper example_lib sharp_s = ''SS'' \<and> py_upper example_lib capital_sharp_s = capital_sharp_s
   \<and> normalize_name example_lib sharp_s = ''SS'' \<and> normalize_name example_lib capital_sharp_s = []"
  by code_simp

text \<open>Conversely, a string differs from its normalised form only in these three ways.\<close>

lemma differ_upper_gen: "differ_only (xs @ s) (xs @ str_upper s)"
proof (induction s arbitrary: xs)
  case Nil
  show ?case by (simp add: str_upper_def same)
next
  case (Cons c s)
  have "differ_only (xs @ c # s) (xs @ upper_char c # s)"
    by (rule letter_case) (simp add: upper_char_idem)
  moreover have "differ_only ((xs @ [upper_char c]) @ s) ((xs @ [upper_char c]) @ str_upper s)"
    by (rule Cons.IH)
  ultimately show ?case by (auto simp: str_upper_def intro: chain)
qed

lemma differ_filter_gen: "list_all (\<lambda>c. upper_char c = c) s \<Longrightarrow> differ_only (xs @ s) (xs @ replace_non_alnum s)"
proof (induction s arbitrary: xs)
  case Nil
  show ?case by (simp add: replace_non_alnum_def same)
next
  case (Cons c s)
  show ?case
  proof (cases "kept_char c")
    case True
    from Cons.prems have "differ_only ((xs @ [c]) @ s) ((xs @ [c]) @ replace_non_alnum s)"
      by (intro Cons.IH) simp
    with True show ?thesis by (simp add: replace_non_alnum_def)
  next
    case False
    with Cons.prems have "is_punct c" using kept_upper_iff[of c] by simp
    then have "differ_only (xs @ c # s) (xs @ s)" by (rule punctuation)
    moreover from Cons.prems have "differ_only (xs @ s) (xs @ replace_non_alnum s)"
      by (intro Cons.IH) simp
    ultimately show ?thesis using False by (auto simp: replace_non_alnum_def intro: chain)
  qed
qed

lemma differ_strip: "differ_only s (str_strip s)"
proof -
  have a: "s = takeWhile is_space s @ dropWhile is_space s" by simp
  have "differ_only (takeWhile is_space s @ dropWhile is_space s) (dropWhile is_space s)"
    by (rule leading) (auto simp: list_all_iff dest: set_takeWhileD)
  then have 1: "differ_only s (dropWhile is_space s)" by simp
  define r where "r = dropWhile is_space s"
  have "r = rev (dropWhile is_space (rev r)) @ rev (takeWhile is_space (rev r))"
    by (metis rev_append rev_rev_ident takeWhile_dropWhile_id)
  moreover have "differ_only (rev (dropWhile is_space (rev r)) @ rev (takeWhile is_space (rev r))) (rev (dropWhile is_space (rev r)))"
    by (rule trailing) (auto simp: list_all_iff dest: set_takeWhileD)
  ultimately have "differ_only r (str_strip s)" by (simp add: str_strip_def r_def)
  with 1 show ?thesis unfolding r_def by (rule chain)
qed

lemma differ_normalize: "differ_only s (str_strip (replace_non_alnum (str_upper s)))"
proof -
  have "differ_only ([] @ s) ([] @ str_upper s)" by (rule differ_upper_gen)
  moreover have "differ_only ([] @ str_upper s) ([] @ replace_non_alnum (str_upper s))"
    by (rule differ_filter_gen) (simp add: list_all_iff str_upper_def upper_char_idem)
  moreover have "differ_only (replace_non_alnum (str_upper s))
      (str_strip (replace_non_alnum (str_upper s)))"
    by (rule differ_strip)
  ultimately show ?thesis by (auto intro: chain)
qed

lemma differ_acme: "differ_only ''Acme Corp.'' ''ACME CORP''"
proof -
  have "differ_only ''Acme Corp.'' (str_strip (replace_non_alnum (str_upper ''Acme Corp.'')))"
    by (rule differ_normalize)
  moreover have "str_strip (replace_non_alnum (str_upper ''Acme Corp.'')) = ''ACME CORP''"
    by code_simp
  ultimately show ?thesis by simp
qed

theorem normalize_name_invariant_witness:
  "differ_only ''Acme Corp.'' ''ACME CORP''
   \<and> list_all is_ascii ''Acme Corp.'' \<and> list_all is_ascii ''ACME CORP''
   \<and> normalize_name example_lib ''Acme Corp.'' = normalize_name example_lib ''ACME CORP''
   \<and> normalize_name example_lib ''Acme Corp.'' = ''ACME CORP''"
proof -
  have a: "list_all is_ascii ''Acme Corp.''" by code_simp
  have b: "list_all is_ascii ''ACME CORP''" by code_simp
  have c: "normalize_name example_lib ''Acme Corp.'' = ''ACME CORP''" by code_simp
  from normalize_name_invariant[OF differ_acme a b, of example_lib] differ_acme a b c
  show ?thesis by (intro conjI)
qed

subsection \<open>The greedy deduplication of normalised names\<close>

lemma unique_Nil [simp]: "unique [] = []"
  by (simp add: unique_def)

lemma unique_snoc: "unique (xs @ [x]) = (if x \<in> set xs then unique xs else unique xs @ [x])"
  by (simp add: unique_def)

lemma distinct_unique [simp]: "distinct (unique xs)"
  by (simp add: unique_def)

lemma set_unique [simp]: "set (unique xs) = set xs"
  by (simp add: unique_def)

lemma fold_best:
  fixes scorer :: "string \<Rightarrow> string \<Rightarrow> rat"
  assumes "fold (\<lambda>choice (best, score).
                   if scorer query choice > score then (choice, scorer query choice)
                   else (best, score)) cs (b, scorer query b) = (m, s)"
  shows "s = scorer query m \<and> m \<in> set (b # cs) \<and> (\<forall>c\<in>set (b # cs). scorer query c \<le> s)"
  using assms
proof (induction cs arbitrary: b)
  case Nil
  then show ?case by auto
next
  case (Cons c cs)
  show ?case
  proof (cases "scorer query c > scorer query b")
    case True
    with Cons.prems have "fold (\<lambda>choice (best, score).
                   if scorer query choice > score then (choice, scorer query choice)
                   else (best, score)) cs (c, scorer query c) = (m, s)" by simp
    from Cons.IH[OF this] True show ?thesis by auto
  next
    case False
    with Cons.prems have "fold (\<lambda>choice (best, score).
                   if scorer query choice > score then (choice, scorer query choice)
                   else (best, score)) cs (b, scorer query b) = (m, s)" by simp
    from Cons.IH[OF this] False show ?thesis by auto
  qed
qed

lemma extractOne_best:
  assumes "extractOne scorer query cs = Some (m, s)"
  shows "s = scorer query m \<and> is_best_match scorer query cs m"
proof (cases cs)
  case Nil
  with assms show ?thesis by simp
next
  case (Cons c cs')
  with assms fold_best[of scorer query cs' c m s] show ?thesis
    by (auto simp: is_best_match_def list_all_iff)
qed

lemma extractOne_Some: "cs \<noteq> [] \<Longrightarrow> \<exists>m s. extractOne scorer query cs = Some (m, s)"
  by (cases cs) (auto intro: prod.exhaust)

lemma dedup_step:
  "unique_names \<noteq> [] \<Longrightarrow>
   \<exists>m. is_best_match scorer name unique_names m \<and>
       dedup_loop scorer threshold [name] (unique_names, name_mapping) =
         Some (if scorer name m \<ge> threshold then (unique_names, name_mapping(name \<mapsto> m))
               else (unique_names @ [name], name_mapping(name \<mapsto> name)))"
proof -
  assume ne: "unique_names \<noteq> []"
  then obtain m s where e: "extractOne scorer name unique_names = Some (m, s)"
    using extractOne_Some by blast
  from extractOne_best[OF e] ne e show ?thesis
    by (intro exI[of _ m]) simp
qed

lemma dedup_loop_append:
  "dedup_loop scorer threshold (ns @ ms) st =
     (case dedup_loop scorer threshold ns st of None \<Rightarrow> None
      | Some st' \<Rightarrow> dedup_loop scorer threshold ms st')"
proof (induction scorer threshold ns st rule: dedup_loop.induct)
  case (1 scorer threshold st)
  show ?case by simp
next
  case (2 scorer threshold name rest unique_names name_mapping)
  show ?case
  proof (cases "unique_names = []")
    case True
    with 2 show ?thesis by simp
  next
    case False
    then obtain m s where e: "extractOne scorer name unique_names = Some (m, s)"
      using extractOne_Some by blast
    with False 2 show ?thesis by (cases "threshold \<le> s") simp_all
  qed
qed

lemma dedup_loop_total:
  "\<exists>U M. dedup_loop scorer threshold ns (U0, M0) = Some (U, M) \<and> (ns \<noteq> [] \<or> U0 \<noteq> [] \<longrightarrow> U \<noteq> [])"
proof (induction ns arbitrary: U0 M0)
  case Nil
  show ?case by simp
next
  case (Cons name rest)
  have step: "\<exists>U M. dedup_loop scorer threshold rest (U1, M1) = Some (U, M) \<and> U \<noteq> []"
    if "U1 \<noteq> []" for U1 M1
    using Cons.IH[of U1 M1] that by blast
  show ?case
  proof (cases "U0 = []")
    case True
    with step[of "[name]" "M0(name \<mapsto> name)"] show ?thesis by simp
  next
    case False
    then obtain m s where e: "extractOne scorer name U0 = Some (m, s)"
      using extractOne_Some by blast
    show ?thesis
    proof (cases "threshold \<le> s")
      case True
      with step[of U0 "M0(name \<mapsto> m)"] False e show ?thesis by simp
    next
      case no: False
      with step[of "U0 @ [name]" "M0(name \<mapsto> name)"] False e show ?thesis by simp
    qed
  qed
qed

text \<open>
  C3: the loop runs over the distinct normalised names in the order of their first occurrence
  (\<open>unique\<close> appends a name exactly when it has not occurred before). The first name becomes
  its own canonical form. Every later name \<open>name\<close>, processed after the names \<open>names\<close> have left
  the canonical forms \<open>U\<close> and the mapping \<open>M\<close>, is mapped to a best match \<open>m\<close> among \<open>U\<close> when
  the score of \<open>m\<close> is at least 90, and is otherwise appended to \<open>U\<close> and mapped to itself. The
  loop never raises.
\<close>

theorem greedy_deduplication:
  "distinct (unique xs)
   \<and> unique (xs @ [x]) = (if x \<in> set xs then unique xs else unique xs @ [x])
   \<and> dedup_loop scorer 90 [name] ([], Map.empty) = Some ([name], [name \<mapsto> name])
   \<and> (names \<noteq> [] \<longrightarrow>
        (\<exists>U M m. dedup_loop scorer 90 names ([], Map.empty) = Some (U, M) \<and> U \<noteq> []
           \<and> is_best_match scorer name U m
           \<and> dedup_loop scorer 90 (names @ [name]) ([], Map.empty) =
               Some (if scorer name m \<ge> 90 then (U, M(name \<mapsto> m))
                     else (U @ [name], M(name \<mapsto> name)))))"
proof -
  have "\<exists>U M m. dedup_loop scorer 90 names ([], Map.empty) = Some (U, M) \<and> U \<noteq> []
           \<and> is_best_match scorer name U m
           \<and> dedup_loop scorer 90 (names @ [name]) ([], Map.empty) =
               Some (if scorer name m \<ge> 90 then (U, M(name \<mapsto> m))
                     else (U @ [name], M(name \<mapsto> name)))" if ne: "names \<noteq> []"
  proof -
    from dedup_loop_total[of scorer 90 names "[]" Map.empty] ne
    obtain U M where 1: "dedup_loop scorer 90 names ([], Map.empty) = Some (U, M)" and 2: "U \<noteq> []"
      by blast
    from dedup_step[OF 2, of scorer name 90 M] obtain m where
      3: "is_best_match scorer name U m" and
      4: "dedup_loop scorer 90 [name] (U, M) =
         Some (if scorer name m \<ge> 90 then (U, M(name \<mapsto> m)) else (U @ [name], M(name \<mapsto> name)))"
      by blast
    from 1 4 have "dedup_loop scorer 90 (names @ [name]) ([], Map.empty) =
         Some (if scorer name m \<ge> 90 then (U, M(name \<mapsto> m)) else (U @ [name], M(name \<mapsto> name)))"
      by (simp add: dedup_loop_append)
    with 1 2 3 show ?thesis by blast
  qed
  then show ?thesis by (simp add: unique_snoc)
qed

theorem greedy_deduplication_witness:
  "[''ACME CORP''] \<noteq> []
   \<and> (\<exists>U M m. dedup_loop example_scorer 90 [''ACME CORP''] ([], Map.empty) = Some (U, M) \<and> U \<noteq> []
           \<and> is_best_match example_scorer ''ACME CORPORATION'' U m
           \<and> dedup_loop example_scorer 90 ([''ACME CORP''] @ [''ACME CORPORATION'']) ([], Map.empty) =
               Some (if example_scorer ''ACME CORPORATION'' m \<ge> 90
                     then (U, M(''ACME CORPORATION'' \<mapsto> m))
                     else (U @ [''ACME CORPORATION''], M(''ACME CORPORATION'' \<mapsto> ''ACME CORPORATION''))))"
proof -
  have ne: "[''ACME CORP''] \<noteq> []" by simp
  note g = greedy_deduplication[where scorer = example_scorer and names = "[''ACME CORP'']"
      and name = "''ACME CORPORATION''", THEN conjunct2, THEN conjunct2, THEN conjunct2]
  from ne g[THEN mp, OF ne] show ?thesis by (rule conjI)
qed

subsection \<open>Columns of a frame\<close>

lemma filter_label:
  "distinct (map fst df) \<Longrightarrow>
   filter (\<lambda>(k, v). k = c) df = (case map_of df c of None \<Rightarrow> [] | Some v \<Rightarrow> [(c, v)])"
proof (induction df)
  case Nil
  show ?case by simp
next
  case (Cons a df)
  obtain k w where a: "a = (k, w)" by (cases a)
  from Cons.prems a have d: "distinct (map fst df)" and k: "k \<notin> fst ` set df" by simp_all
  show ?case
  proof (cases "k = c")
    case True
    with k have "map_of df c = None" by (simp add: map_of_eq_None_iff)
    with Cons.IH[OF d] True a show ?thesis by simp
  next
    case False
    with Cons.IH[OF d] a show ?thesis by simp
  qed
qed

text \<open>In a frame without repeated labels, reading a column is a lookup.\<close>

lemma get_col_distinct: "distinct (columns df) \<Longrightarrow> get_col df c = map_of df c"
  by (simp add: get_col_def columns_def filter_label split: option.splits)

lemma get_col_mem: "get_col df c = Some v \<Longrightarrow> (c, v) \<in> set df"
proof -
  assume g: "get_col df c = Some v"
  then have "filter (\<lambda>(k, v). k = c) df = [(c, v)] \<or> (\<exists>k. filter (\<lambda>(k, v). k = c) df = [(k, v)])"
    by (auto simp: get_col_def split: list.splits prod.splits)
  then obtain k where f: "filter (\<lambda>(k, v). k = c) df = [(k, v)]" by auto
  then have "(k, v) \<in> set (filter (\<lambda>(k, v). k = c) df)" by simp
  then show ?thesis by auto
qed

lemma columns_set_col:
  "columns (set_col df c v) = (if c \<in> set (columns df) then columns df else columns df @ [c])"
proof -
  have "map fst (map (\<lambda>(k, w). if k = c then (k, v) else (k, w)) df) = map fst df"
    by (induction df) auto
  then show ?thesis by (simp add: set_col_def columns_def)
qed

lemma distinct_set_col [simp]:
  "distinct (columns df) \<Longrightarrow> distinct (columns (set_col df c v))"
  by (simp add: columns_set_col)

lemma filter_set_col_other:
  "c' \<noteq> c \<Longrightarrow> filter (\<lambda>(k, v). k = c') (set_col df c v) = filter (\<lambda>(k, v). k = c') df"
proof -
  assume n: "c' \<noteq> c"
  then have "filter (\<lambda>(k, v). k = c') (map (\<lambda>(k, w). if k = c then (k, v) else (k, w)) df)
      = filter (\<lambda>(k, v). k = c') df"
    by (induction df) (auto split: if_splits)
  with n show ?thesis by (simp add: set_col_def)
qed

lemma get_col_set_col_other: "c' \<noteq> c \<Longrightarrow> get_col (set_col df c v) c' = get_col df c'"
  by (simp add: get_col_def filter_set_col_other)

lemma map_of_set_col:
  "map_of (set_col df c v) c = Some v"
proof (cases "c \<in> set (columns df)")
  case True
  then have "map_of (map (\<lambda>(k, w). if k = c then (k, v) else (k, w)) df) c = Some v"
    by (induction df) (auto simp: columns_def)
  with True show ?thesis by (simp add: set_col_def)
next
  case False
  then have "map_of df c = None" by (simp add: columns_def map_of_eq_None_iff)
  with False show ?thesis by (simp add: set_col_def map_add_def)
qed

lemma get_col_set_col_same: "distinct (columns df) \<Longrightarrow> get_col (set_col df c v) c = Some v"
  by (simp add: get_col_distinct map_of_set_col)

lemma get_col_set_col [simp]:
  "distinct (columns df) \<Longrightarrow>
   get_col (set_col df c v) c' = (if c' = c then Some v else get_col df c')"
  by (simp add: get_col_set_col_same get_col_set_col_other)

lemma nrows_set_col: "length v = nrows df \<Longrightarrow> nrows (set_col df c v) = nrows df"
  by (cases df) (auto simp: nrows_def set_col_def)

lemma set_set_col: "set (set_col df c v) \<subseteq> insert (c, v) (set df)"
  by (auto simp: set_col_def split: if_splits)

lemma rectangular_set_col:
  assumes "rectangular df" "length v = nrows df"
  shows "rectangular (set_col df c v)"
proof -
  have "length w = nrows df" if "(k, w) \<in> set (set_col df c v)" for k w
    using that set_set_col[of df c v] assms by (auto simp: rectangular_def list_all_iff)
  then show ?thesis
    by (auto simp: rectangular_def list_all_iff nrows_set_col[OF assms(2)])
qed

lemma has_rows_set_col [simp]:
  "has_rows n df \<Longrightarrow> length v = n \<Longrightarrow> has_rows n (set_col df c v)"
  by (simp add: has_rows_def nrows_set_col rectangular_set_col)

lemma get_col_length:
  "rectangular df \<Longrightarrow> get_col df c = Some v \<Longrightarrow> length v = nrows df"
  by (auto simp: rectangular_def list_all_iff dest!: get_col_mem)

lemma get_col_member:
  "distinct (columns df) \<Longrightarrow> c \<in> set (columns df) \<Longrightarrow> \<exists>v. get_col df c = Some v"
  by (metis columns_def get_col_distinct list.set_map not_None_eq map_of_eq_None_iff)

lemma get_col_mem_distinct:
  "distinct (columns df) \<Longrightarrow> (c, v) \<in> set df \<Longrightarrow> get_col df c = Some v"
  by (simp add: get_col_distinct) (simp add: columns_def)

lemma unified_ok_col:
  assumes "unified_ok df" "c \<in> set required_columns"
  shows "\<exists>v. get_col df c = Some v \<and> length v = nrows df"
proof -
  from assms have "c \<in> set (columns df)" by (auto simp: unified_ok_def list_all_iff)
  moreover from assms(1) have "distinct (columns df)" by (simp add: unified_ok_def)
  ultimately obtain v where "get_col df c = Some v" using get_col_member by blast
  moreover from assms(1) have "rectangular df" by (simp add: unified_ok_def)
  ultimately show ?thesis using get_col_length by blast
qed

lemma cell_at_col: "get_col df c = Some v \<Longrightarrow> cell_at df c i = v ! i"
  by (simp add: cell_at_def col_of_def)

lemma col_of_col: "get_col df c = Some v \<Longrightarrow> col_of df c = v"
  by (simp add: col_of_def)

lemma ex_ok: "unified_ok (one_row a b c d e)"
  by (simp add: unified_ok_def one_row_def rectangular_def nrows_def columns_def required_columns_def)

lemma ex_datetimelike: "datetimelike example_lib v"
  by (simp add: example_lib_def)

lemma ex_nrows: "nrows (one_row a b c d e) = 1"
  by (simp add: one_row_def nrows_def)

subsection \<open>The derived fields in closed form\<close>

lemma normalize_columns:
  "map str_strip (map replace_non_alnum (map (py_upper L) (astype_str L v)))
     = map (\<lambda>c. normalize_name L (py_str L c)) v"
  by (simp add: astype_str_def normalize_name_def)

lemma dedup_loop_discarded:
  "(dedup_loop scorer threshold ns ([], Map.empty) \<bind> (\<lambda>(unique_names, name_mapping). Some x)) = Some x"
proof -
  obtain U M where "dedup_loop scorer threshold ns ([], Map.empty) = Some (U, M)"
    using dedup_loop_total by blast
  then show ?thesis by simp
qed

text \<open>
  The function returns the frame with the column Normalized_Importer set, unless a label
  that it reads is missing or repeated; the scorer and the threshold have no part in it.
\<close>

lemma normalize_importer_names_general:
  "normalize_importer_names L threshold df =
     (case get_col df ''Importer'' of
        None \<Rightarrow> None
      | Some importer \<Rightarrow>
          (case get_col (set_col df ''Normalized_Importer''
                           (map (\<lambda>c. Str (normalize_name L (py_str L c))) importer))
                        ''Normalized_Importer'' of
             None \<Rightarrow> None
           | Some x \<Rightarrow> Some (set_col df ''Normalized_Importer''
                               (map (\<lambda>c. Str (normalize_name L (py_str L c))) importer))))"
proof (cases "get_col df ''Importer''")
  case None
  then show ?thesis by (simp add: normalize_importer_names_def)
next
  case (Some importer)
  let ?v = "map (\<lambda>c. Str (normalize_name L (py_str L c))) importer"
  show ?thesis
  proof (cases "get_col (set_col df ''Normalized_Importer'' ?v) ''Normalized_Importer''")
    case None
    with Some show ?thesis
      by (simp add: normalize_importer_names_def Let_def astype_str_def normalize_name_def comp_def)
  next
    case (Some x)
    with \<open>get_col df ''Importer'' = Some importer\<close> show ?thesis
      by (simp add: normalize_importer_names_def Let_def astype_str_def normalize_name_def comp_def
          dedup_loop_discarded)
  qed
qed

lemma normalize_importer_names_eq:
  "distinct (columns df) \<Longrightarrow>
   normalize_importer_names L threshold df =
     (case get_col df ''Importer'' of
        None \<Rightarrow> None
      | Some importer \<Rightarrow>
          Some (set_col df ''Normalized_Importer''
                  (map (\<lambda>c. Str (normalize_name L (py_str L c))) importer)))"
  by (simp add: normalize_importer_names_general split: option.splits)

lemma derive_columns:
  fixes L :: lib
  assumes "get_col df ''Importer'' = Some imp" "get_col df ''Date'' = Some date"
    "get_col df ''Master Bill Number'' = Some mbn" "get_col df ''Quantity'' = Some qty"
    "get_col df ''Value(USD)'' = Some val" "get_col df ''Unit Price(USD)'' = Some up"
    "distinct (columns df)" "datetimelike L date"
  defines "imp' \<equiv> map Str (map str_upper (map str_strip (astype_str L imp)))"
  defines "mbn' \<equiv> fillna (replace_nan (astype_str L mbn))
                     (add_series (add_scalar imp' '' '') (dt_strftime (to_datetime_values L date)))"
  shows "\<exists>df'. derive L df = Some df'
     \<and> distinct (columns df')
     \<and> get_col df' ''Importer'' = Some imp'
     \<and> get_col df' ''Date'' = Some (to_datetime_values L date)
     \<and> get_col df' ''Date_str'' = Some (dt_strftime (to_datetime_values L date))
     \<and> get_col df' ''Master Bill Number'' = Some mbn'
     \<and> get_col df' ''Unique Master Bill Number'' = Some (map Str (map str_strip (astype_str L mbn')))
     \<and> get_col df' ''Container Name'' = Some (map Str (map str_strip (astype_str L mbn')))
     \<and> get_col df' ''Quantity'' = Some (pd_to_numeric L qty)
     \<and> get_col df' ''Weight (kgs)'' = Some (pd_to_numeric L qty)
     \<and> get_col df' ''Value (USD)'' = Some (pd_to_numeric L val)
     \<and> get_col df' ''Unit Price (USD)'' = Some (pd_to_numeric L up)
     \<and> get_col df' ''Shipment Cost'' = Some (pd_to_numeric L val)
     \<and> (\<forall>c. c \<notin> set derived_labels \<longrightarrow> get_col df' c = get_col df c)"
  using assms(1-8) unfolding imp'_def mbn'_def derived_labels_def
  by (simp add: derive_def normalize_importer_names_eq pd_to_datetime_def)

lemma length_ops [simp]:
  "length (astype_str L v) = length v"
  "length (to_datetime_values L v) = length v"
  "length (pd_to_numeric L v) = length v"
  "length (dt_strftime v) = length v"
  "length (replace_nan ss) = length ss"
  "length (add_scalar v s) = length v"
  "length (add_series v w) = min (length v) (length w)"
  "length (fillna v w) = min (length v) (length w)"
  by (simp_all add: astype_str_def to_datetime_values_def pd_to_numeric_def dt_strftime_def
      replace_nan_def add_scalar_def add_series_def fillna_def)

lemma derive_frame:
  fixes L :: lib
  assumes "get_col df ''Importer'' = Some imp" "get_col df ''Date'' = Some date"
    "get_col df ''Master Bill Number'' = Some mbn" "get_col df ''Quantity'' = Some qty"
    "get_col df ''Value(USD)'' = Some val" "get_col df ''Unit Price(USD)'' = Some up"
    "distinct (columns df)" "datetimelike L date"
  assumes rect: "rectangular df"
  shows "\<exists>df'. derive L df = Some df' \<and> rectangular df' \<and> nrows df' = nrows df"
proof -
  let ?n = "nrows df"
  from assms have len: "length imp = ?n" "length date = ?n" "length mbn = ?n" "length qty = ?n"
    "length val = ?n" "length up = ?n"
    by (auto dest: get_col_length)
  from rect have r: "has_rows ?n df" by (simp add: has_rows_def)
  have "\<exists>df'. derive L df = Some df' \<and> has_rows ?n df'"
    using assms(1-8) by (simp add: derive_def normalize_importer_names_eq pd_to_datetime_def len r)
  then show ?thesis by (simp add: has_rows_def)
qed

lemma nth_ops:
  "i < length v \<Longrightarrow> astype_str L v ! i = py_str L (v ! i)"
  "i < length v \<Longrightarrow> to_datetime_values L v ! i = (case to_datetime L v (v ! i) of None \<Rightarrow> NaN | Some t \<Rightarrow> Ts t)"
  "i < length v \<Longrightarrow> pd_to_numeric L v ! i = (case to_numeric L (v ! i) of None \<Rightarrow> NaN | Some r \<Rightarrow> Num r)"
  "i < length v \<Longrightarrow> dt_strftime v ! i = (case v ! i of Ts t \<Rightarrow> Str (strftime_Bd t) | _ \<Rightarrow> NaN)"
  "i < length ss \<Longrightarrow> replace_nan ss ! i = (if ss ! i = ''nan'' then NaN else Str (ss ! i))"
  "i < length v \<Longrightarrow> add_scalar v s ! i = (case v ! i of Str x \<Rightarrow> Str (x @ s) | _ \<Rightarrow> NaN)"
  "i < length v \<Longrightarrow> i < length w \<Longrightarrow>
     add_series v w ! i = (case (v ! i, w ! i) of (Str x, Str y) \<Rightarrow> Str (x @ y) | _ \<Rightarrow> NaN)"
  "i < length v \<Longrightarrow> i < length w \<Longrightarrow> fillna v w ! i = (if v ! i = NaN then w ! i else v ! i)"
  by (simp_all add: astype_str_def to_datetime_values_def pd_to_numeric_def dt_strftime_def
      replace_nan_def add_scalar_def add_series_def fillna_def)

lemma derive_unified:
  fixes L :: lib
  assumes "unified_ok df" and "datetimelike L (col_of df ''Date'')"
  shows "\<exists>df' imp date mbn qty val up imp' mbn'.
       get_col df ''Importer'' = Some imp \<and> get_col df ''Date'' = Some date
     \<and> get_col df ''Master Bill Number'' = Some mbn \<and> get_col df ''Quantity'' = Some qty
     \<and> get_col df ''Value(USD)'' = Some val \<and> get_col df ''Unit Price(USD)'' = Some up
     \<and> length imp = nrows df \<and> length date = nrows df \<and> length mbn = nrows df
     \<and> length qty = nrows df \<and> length val = nrows df \<and> length up = nrows df
     \<and> imp' = map Str (map str_upper (map str_strip (astype_str L imp)))
     \<and> mbn' = fillna (replace_nan (astype_str L mbn))
                     (add_series (add_scalar imp' '' '') (dt_strftime (to_datetime_values L date)))
     \<and> derive L df = Some df' \<and> has_rows (nrows df) df' \<and> distinct (columns df')
     \<and> get_col df' ''Importer'' = Some imp'
     \<and> get_col df' ''Date'' = Some (to_datetime_values L date)
     \<and> get_col df' ''Master Bill Number'' = Some mbn'
     \<and> get_col df' ''Unique Master Bill Number'' = Some (map Str (map str_strip (astype_str L mbn')))
     \<and> get_col df' ''Container Name'' = Some (map Str (map str_strip (astype_str L mbn')))
     \<and> get_col df' ''Quantity'' = Some (pd_to_numeric L qty)
     \<and> get_col df' ''Weight (kgs)'' = Some (pd_to_numeric L qty)
     \<and> get_col df' ''Value (USD)'' = Some (pd_to_numeric L val)
     \<and> get_col df' ''Unit Price (USD)'' = Some (pd_to_numeric L up)
     \<and> get_col df' ''Shipment Cost'' = Some (pd_to_numeric L val)
     \<and> (\<forall>c. c \<notin> set derived_labels \<longrightarrow> get_col df' c = get_col df c)"
proof -
  let ?n = "nrows df"
  have req: "\<exists>v. get_col df c = Some v \<and> length v = ?n" if "c \<in> set required_columns" for c
    using unified_ok_col[OF assms(1) that] .
  obtain imp where imp: "get_col df ''Importer'' = Some imp" "length imp = ?n"
    using req[of "''Importer''"] by (auto simp: required_columns_def)
  obtain date where date: "get_col df ''Date'' = Some date" "length date = ?n"
    using req[of "''Date''"] by (auto simp: required_columns_def)
  obtain mbn where mbn: "get_col df ''Master Bill Number'' = Some mbn" "length mbn = ?n"
    using req[of "''Master Bill Number''"] by (auto simp: required_columns_def)
  obtain qty where qty: "get_col df ''Quantity'' = Some qty" "length qty = ?n"
    using req[of "''Quantity''"] by (auto simp: required_columns_def)
  obtain val where val: "get_col df ''Value(USD)'' = Some val" "length val = ?n"
    using req[of "''Value(USD)''"] by (auto simp: required_columns_def)
  obtain up where up: "get_col df ''Unit Price(USD)'' = Some up" "length up = ?n"
    using req[of "''Unit Price(USD)''"] by (auto simp: required_columns_def)
  from assms(1) have rect: "rectangular df" and dist: "distinct (columns df)"
    by (simp_all add: unified_ok_def)
  from assms(2) date(1) have dl: "datetimelike L date" by (simp add: col_of_def)
  obtain df' where d: "derive L df = Some df'" "rectangular df'" "nrows df' = ?n"
    using derive_frame[OF imp(1) date(1) mbn(1) qty(1) val(1) up(1) dist dl rect] by blast
  from derive_columns[OF imp(1) date(1) mbn(1) qty(1) val(1) up(1) dist dl] d(1)
  have cols: "get_col df' ''Importer'' = Some (map Str (map str_upper (map str_strip (astype_str L imp))))"
    "get_col df' ''Date'' = Some (to_datetime_values L date)"
    "get_col df' ''Master Bill Number'' = Some (fillna (replace_nan (astype_str L mbn))
         (add_series (add_scalar (map Str (map str_upper (map str_strip (astype_str L imp)))) '' '')
            (dt_strftime (to_datetime_values L date))))"
    "get_col df' ''Unique Master Bill Number'' = Some (map Str (map str_strip (astype_str L
       (fillna (replace_nan (astype_str L mbn))
         (add_series (add_scalar (map Str (map str_upper (map str_strip (astype_str L imp)))) '' '')
            (dt_strftime (to_datetime_values L date)))))))"
    "get_col df' ''Container Name'' = Some (map Str (map str_strip (astype_str L
       (fillna (replace_nan (astype_str L mbn))
         (add_series (add_scalar (map Str (map str_upper (map str_strip (astype_str L imp)))) '' '')
            (dt_strftime (to_datetime_values L date)))))))"
    "get_col df' ''Quantity'' = Some (pd_to_numeric L qty)"
    "get_col df' ''Weight (kgs)'' = Some (pd_to_numeric L qty)"
    "get_col df' ''Value (USD)'' = Some (pd_to_numeric L val)"
    "get_col df' ''Unit Price (USD)'' = Some (pd_to_numeric L up)"
    "get_col df' ''Shipment Cost'' = Some (pd_to_numeric L val)"
    "\<forall>c. c \<notin> set derived_labels \<longrightarrow> get_col df' c = get_col df c"
    "distinct (columns df')"
    by auto
  from d have "has_rows ?n df'" by (simp add: has_rows_def)
  with imp date mbn qty val up d(1) cols show ?thesis by blast
qed

text \<open>
  When the Date column does not parse to a datetime column, the derivation raises at the
  \<^verbatim>\<open>.dt\<close> of line 82.
\<close>

lemma derive_not_datetimelike:
  assumes "unified_ok df" and "\<not> datetimelike L (col_of df ''Date'')"
  shows "derive L df = None"
proof -
  obtain imp where imp: "get_col df ''Importer'' = Some imp"
    using unified_ok_col[OF assms(1), of "''Importer''"] by (auto simp: required_columns_def)
  obtain date where date: "get_col df ''Date'' = Some date"
    using unified_ok_col[OF assms(1), of "''Date''"] by (auto simp: required_columns_def)
  from assms(1) have dist: "distinct (columns df)" by (simp add: unified_ok_def)
  from assms(2) date have "\<not> datetimelike L date" by (simp add: col_of_def)
  with imp date dist show ?thesis
    by (simp add: derive_def normalize_importer_names_eq pd_to_datetime_def)
qed

subsection \<open>The derived fields, row by row\<close>




text \<open>
  C9, as the script has it: when the bill number is missing (the cell is empty or holds the
  text \<^verbatim>\<open>nan\<close>) and the date does not parse, no bill number is synthesised. The Master Bill
  Number stays \<^verbatim>\<open>NaN\<close>, and the Unique Master Bill Number and the Container Name are the
  text \<^verbatim>\<open>nan\<close>, whatever the importer.
\<close>

theorem null_bill_null_date:
  assumes "unified_ok df" "i < nrows df"
    and "py_str L (cell_at df ''Master Bill Number'' i) = ''nan''"
    and "to_datetime L (col_of df ''Date'') (cell_at df ''Date'' i) = None"
    and "datetimelike L (col_of df ''Date'')"
  shows "\<exists>df'. derive L df = Some df'
     \<and> cell_at df' ''Date'' i = NaN
     \<and> cell_at df' ''Master Bill Number'' i = NaN
     \<and> cell_at df' ''Unique Master Bill Number'' i = Str ''nan''
     \<and> cell_at df' ''Container Name'' i = Str ''nan''"
proof -
  from derive_unified[OF assms(1,5)] obtain df' imp date mbn imp' mbn' where
    raw: "get_col df ''Date'' = Some date" "get_col df ''Master Bill Number'' = Some mbn"
      "get_col df ''Importer'' = Some imp" and
    len: "length date = nrows df" "length mbn = nrows df" "length imp = nrows df" and
    defs: "imp' = map Str (map str_upper (map str_strip (astype_str L imp)))"
      "mbn' = fillna (replace_nan (astype_str L mbn))
                     (add_series (add_scalar imp' '' '') (dt_strftime (to_datetime_values L date)))" and
    d: "derive L df = Some df'" and
    cols: "get_col df' ''Date'' = Some (to_datetime_values L date)"
      "get_col df' ''Master Bill Number'' = Some mbn'"
      "get_col df' ''Unique Master Bill Number'' = Some (map Str (map str_strip (astype_str L mbn')))"
      "get_col df' ''Container Name'' = Some (map Str (map str_strip (astype_str L mbn')))"
    by blast
  from assms(3,4) raw have bill: "py_str L (mbn ! i) = ''nan''"
    and date: "to_datetime L date (date ! i) = None"
    by (simp_all add: cell_at_col col_of_col)
  from assms(2) len date have "to_datetime_values L date ! i = NaN" by (simp add: nth_ops)
  moreover from this assms(2) len bill have m: "mbn' ! i = NaN"
    by (simp add: defs nth_ops)
  moreover from assms(2) len have "length mbn' = nrows df" by (simp add: defs)
  moreover have "str_strip ''nan'' = ''nan''" by code_simp
  ultimately show ?thesis
    using d cols assms(2) by (simp add: cell_at_col nth_ops py_str_def)
qed

text \<open>
  As the specification words it, the property fails: for the importer ACME with neither bill
  number nor date, the Master Bill Number stays empty and the Container Name is the text
  \<^verbatim>\<open>nan\<close>, which does not contain the importer name.
\<close>

theorem null_bill_null_date_counterexample:
  "derived_cell example_lib (one_row (Str ''ACME'') NaN NaN (Num 5) (Str ''Widgets''))
       ''Master Bill Number'' 0 = Some NaN
   \<and> derived_cell example_lib (one_row (Str ''ACME'') NaN NaN (Num 5) (Str ''Widgets''))
       ''Container Name'' 0 = Some (Str ''nan'')
   \<and> \<not> contains ''ACME'' ''nan''"
  by code_simp

theorem null_bill_null_date_witness:
  "unified_ok (one_row (Str ''ACME'') NaN NaN (Num 5) (Str ''Widgets''))
   \<and> 0 < nrows (one_row (Str ''ACME'') NaN NaN (Num 5) (Str ''Widgets''))
   \<and> py_str example_lib (cell_at (one_row (Str ''ACME'') NaN NaN (Num 5) (Str ''Widgets''))
        ''Master Bill Number'' 0) = ''nan''
   \<and> to_datetime example_lib (col_of (one_row (Str ''ACME'') NaN NaN (Num 5) (Str ''Widgets'')) ''Date'')
        (cell_at (one_row (Str ''ACME'') NaN NaN (Num 5) (Str ''Widgets'')) ''Date'' 0) = None
   \<and> datetimelike example_lib (col_of (one_row (Str ''ACME'') NaN NaN (Num 5) (Str ''Widgets'')) ''Date'')
   \<and> (\<exists>df'. derive example_lib (one_row (Str ''ACME'') NaN NaN (Num 5) (Str ''Widgets'')) = Some df'
         \<and> cell_at df' ''Master Bill Number'' 0 = NaN
         \<and> cell_at df' ''Container Name'' 0 = Str ''nan'')"
proof -
  let ?df = "one_row (Str ''ACME'') NaN NaN (Num 5) (Str ''Widgets'')"
  have 1: "unified_ok ?df" by (rule ex_ok)
  have 2: "0 < nrows ?df" by (simp add: ex_nrows)
  have 3: "py_str example_lib (cell_at ?df ''Master Bill Number'' 0) = ''nan''" by code_simp
  have 4: "to_datetime example_lib (col_of ?df ''Date'') (cell_at ?df ''Date'' 0) = None"
    by code_simp
  have 5: "datetimelike example_lib (col_of ?df ''Date'')" by (rule ex_datetimelike)
  from null_bill_null_date[OF 1 2 3 4 5] obtain df' where
    "derive example_lib ?df = Some df'" "cell_at df' ''Master Bill Number'' 0 = NaN"
    "cell_at df' ''Container Name'' 0 = Str ''nan''"
    by (elim exE conjE)
  then have "\<exists>df'. derive example_lib ?df = Some df'
         \<and> cell_at df' ''Master Bill Number'' 0 = NaN
         \<and> cell_at df' ''Container Name'' 0 = Str ''nan''"
    by (intro exI conjI)
  with 1 2 3 4 5 show ?thesis by (intro conjI)
qed

subsection \<open>Trimming a synthesised bill number\<close>

lemma not_space_upper: "is_space (upper_char c) \<Longrightarrow> is_space c"
  unfolding is_space_def whitespace_def upper_char_def ascii_lowercase_def ascii_uppercase_def
  by (auto split: option.splits if_splits)

lemma str_strip_id:
  assumes "s \<noteq> []" "\<not> is_space (hd s)" "\<not> is_space (last s)"
  shows "str_strip s = s"
proof -
  from assms have "dropWhile is_space s = s" by (simp add: dropWhile_eq_self_iff)
  moreover from assms have "dropWhile is_space (rev s) = rev s"
    by (simp add: dropWhile_eq_self_iff hd_rev)
  ultimately show ?thesis by (simp add: str_strip_def)
qed

lemma hd_str_strip:
  assumes "str_strip x \<noteq> []"
  shows "\<not> is_space (hd (str_strip x))"
proof -
  define y where "y = dropWhile is_space x"
  define z where "z = dropWhile is_space (rev y)"
  have s: "str_strip x = rev z" by (simp add: str_strip_def y_def z_def)
  with assms have z: "z \<noteq> []" by simp
  have "rev y = takeWhile is_space (rev y) @ z" by (simp add: z_def)
  with z have "last (rev y) = last z" by (metis last_appendR)
  moreover from z have y: "y \<noteq> []" by (auto simp: z_def)
  ultimately have "hd y = last z" by (simp add: last_rev)
  moreover from y have "\<not> is_space (hd y)" unfolding y_def by (rule hd_dropWhile)
  ultimately show ?thesis using z by (simp add: s hd_rev)
qed

lemma digit_not_space: "\<not> is_space (digit_char n)"
proof -
  have "n mod 10 < length digits" by (simp add: digits_def)
  then have "digit_char n \<in> set digits" unfolding digit_char_def by (rule nth_mem)
  then show ?thesis by (auto simp: digits_def is_space_def whitespace_def)
qed

lemma synthesized_id:
  assumes "importer = str_upper (str_strip x)" "importer \<noteq> []"
  shows "str_strip (importer @ '' '' @ strftime_Bd t) = importer @ '' '' @ strftime_Bd t"
proof (rule str_strip_id)
  show "importer @ '' '' @ strftime_Bd t \<noteq> []" by simp
  from assms have ne: "str_strip x \<noteq> []" by (auto simp: str_upper_def)
  from assms have "hd (importer @ '' '' @ strftime_Bd t) = upper_char (hd (str_strip x))"
    by (simp add: str_upper_def hd_map ne)
  with hd_str_strip[OF ne] show "\<not> is_space (hd (importer @ '' '' @ strftime_Bd t))"
    using not_space_upper by auto
  show "\<not> is_space (last (importer @ '' '' @ strftime_Bd t))"
    by (simp add: strftime_Bd_def digit_not_space)
qed

text \<open>
  C2, as the script has it: a record whose date parses has a text for Container Name. It is
  the trimmed text of the original Master Bill Number when that is present (the cell is neither
  empty nor the text \<^verbatim>\<open>nan\<close>); otherwise it is the trimmed concatenation of the importer name
  (trimmed and in upper case), a space and the month name and two-digit day of the date, as in
  \<^verbatim>\<open>ACME January05\<close>. The trimming leaves the concatenation as it is unless the importer name
  is empty.
\<close>

theorem container_name_value:
  assumes "unified_ok df" "i < nrows df" and "datetimelike L (col_of df ''Date'')"
  shows "\<exists>df'. derive L df = Some df'
     \<and> (let importer = str_upper (str_strip (py_str L (cell_at df ''Importer'' i)));
             bill = py_str L (cell_at df ''Master Bill Number'' i)
         in cell_at df' ''Importer'' i = Str importer
          \<and> (\<forall>t. cell_at df' ''Date'' i = Ts t \<longrightarrow>
                cell_at df' ''Container Name'' i =
                  Str (str_strip (if bill = ''nan'' then importer @ '' '' @ strftime_Bd t else bill))
              \<and> (importer \<noteq> [] \<longrightarrow>
                   str_strip (importer @ '' '' @ strftime_Bd t) = importer @ '' '' @ strftime_Bd t)))"
proof -
  from derive_unified[OF assms(1,3)] obtain df' imp date mbn imp' mbn' where
    raw: "get_col df ''Date'' = Some date" "get_col df ''Master Bill Number'' = Some mbn"
      "get_col df ''Importer'' = Some imp" and
    len: "length date = nrows df" "length mbn = nrows df" "length imp = nrows df" and
    defs: "imp' = map Str (map str_upper (map str_strip (astype_str L imp)))"
      "mbn' = fillna (replace_nan (astype_str L mbn))
                     (add_series (add_scalar imp' '' '') (dt_strftime (to_datetime_values L date)))" and
    d: "derive L df = Some df'" and
    cols: "get_col df' ''Date'' = Some (to_datetime_values L date)"
      "get_col df' ''Importer'' = Some imp'"
      "get_col df' ''Container Name'' = Some (map Str (map str_strip (astype_str L mbn')))"
    by blast
  define importer where "importer = str_upper (str_strip (py_str L (imp ! i)))"
  define bill where "bill = py_str L (mbn ! i)"
  from assms(2) len have imp_i: "imp' ! i = Str importer"
    by (simp add: defs importer_def nth_ops)
  from len have li: "length imp' = nrows df" by (simp add: defs)
  from len li have lm: "length mbn' = nrows df" by (simp add: defs(2))
  have cn: "cell_at df' ''Container Name'' i =
          Str (str_strip (if bill = ''nan'' then importer @ '' '' @ strftime_Bd t else bill))"
    if "cell_at df' ''Date'' i = Ts t" for t
  proof -
    from that cols have "to_datetime_values L date ! i = Ts t" by (simp add: cell_at_col)
    with assms(2) len have "dt_strftime (to_datetime_values L date) ! i = Str (strftime_Bd t)"
      by (simp add: nth_ops(4))
    moreover from assms(2) li imp_i have "add_scalar imp' '' '' ! i = Str (importer @ '' '')"
      by (simp add: nth_ops(6))
    ultimately have "add_series (add_scalar imp' '' '') (dt_strftime (to_datetime_values L date)) ! i
        = Str (importer @ '' '' @ strftime_Bd t)"
      using assms(2) len li by (simp add: nth_ops(7))
    moreover from assms(2) len have "replace_nan (astype_str L mbn) ! i =
        (if bill = ''nan'' then NaN else Str bill)"
      by (simp add: nth_ops(1,5) bill_def)
    ultimately have "mbn' ! i =
        (if bill = ''nan'' then Str (importer @ '' '' @ strftime_Bd t) else Str bill)"
      using assms(2) len li by (simp add: defs(2) nth_ops(8))
    with assms(2) lm cols show ?thesis
      by (simp add: cell_at_col nth_ops py_str_def)
  qed
  have "str_strip (importer @ '' '' @ strftime_Bd t) = importer @ '' '' @ strftime_Bd t"
    if "importer \<noteq> []" for t
    using importer_def that by (rule synthesized_id)
  with cn imp_i d cols raw show ?thesis
    by (simp add: Let_def importer_def bill_def cell_at_col)
qed

text \<open>
  As the specification words it, the property fails where the importer cell holds only
  whitespace: the importer name is then empty and the Container Name is \<^verbatim>\<open>January05\<close>, not
  the name, a space and the date. Its example fails too: the month name is not put in upper
  case.
\<close>

theorem container_name_value_counterexample:
  "derived_cell example_lib (one_row (Str '' '') (Ts jan05) NaN (Num 5) (Str ''Widgets''))
       ''Importer'' 0 = Some (Str [])
   \<and> derived_cell example_lib (one_row (Str '' '') (Ts jan05) NaN (Num 5) (Str ''Widgets''))
       ''Date'' 0 = Some (Ts jan05)
   \<and> derived_cell example_lib (one_row (Str '' '') (Ts jan05) NaN (Num 5) (Str ''Widgets''))
       ''Container Name'' 0 = Some (Str ''January05'')
   \<and> ''January05'' \<noteq> [] @ '' '' @ strftime_Bd jan05
   \<and> derived_cell example_lib (one_row (Str ''Acme'') (Ts jan05) NaN (Num 5) (Str ''Widgets''))
       ''Container Name'' 0 = Some (Str ''ACME January05'')
   \<and> ''ACME January05'' \<noteq> ''ACME JANUARY05''"
  by code_simp

theorem container_name_value_witness:
  "unified_ok (one_row (Str ''Acme'') (Ts jan05) NaN (Num 5) (Str ''Widgets''))
   \<and> 0 < nrows (one_row (Str ''Acme'') (Ts jan05) NaN (Num 5) (Str ''Widgets''))
   \<and> datetimelike example_lib (col_of (one_row (Str ''Acme'') (Ts jan05) NaN (Num 5) (Str ''Widgets'')) ''Date'')
   \<and> (\<exists>df'. derive example_lib (one_row (Str ''Acme'') (Ts jan05) NaN (Num 5) (Str ''Widgets'')) = Some df'
        \<and> cell_at df' ''Date'' 0 = Ts jan05
        \<and> cell_at df' ''Container Name'' 0 = Str ''ACME January05'')"
proof -
  let ?df = "one_row (Str ''Acme'') (Ts jan05) NaN (Num 5) (Str ''Widgets'')"
  have 1: "unified_ok ?df" by (rule ex_ok)
  have 2: "0 < nrows ?df" by (simp add: ex_nrows)
  have 3: "datetimelike example_lib (col_of ?df ''Date'')" by (rule ex_datetimelike)
  from container_name_value[OF 1 2 3] obtain df' where
    d: "derive example_lib ?df = Some df'" and
    c: "\<forall>t. cell_at df' ''Date'' 0 = Ts t \<longrightarrow>
          cell_at df' ''Container Name'' 0 =
            Str (str_strip (if py_str example_lib (cell_at ?df ''Master Bill Number'' 0) = ''nan''
                            then str_upper (str_strip (py_str example_lib (cell_at ?df ''Importer'' 0)))
                                 @ '' '' @ strftime_Bd t
                            else py_str example_lib (cell_at ?df ''Master Bill Number'' 0)))"
    by (auto simp: Let_def)
  have date: "derived_cell example_lib ?df ''Date'' 0 = Some (Ts jan05)" by code_simp
  with d have dt: "cell_at df' ''Date'' 0 = Ts jan05" by (simp add: derived_cell_def)
  have "str_strip (if py_str example_lib (cell_at ?df ''Master Bill Number'' 0) = ''nan''
                            then str_upper (str_strip (py_str example_lib (cell_at ?df ''Importer'' 0)))
                                 @ '' '' @ strftime_Bd jan05
                            else py_str example_lib (cell_at ?df ''Master Bill Number'' 0))
        = ''ACME January05''" by code_simp
  with c[rule_format, OF dt] have "cell_at df' ''Container Name'' 0 = Str ''ACME January05''"
    by (simp only:)
  with d dt have "\<exists>df'. derive example_lib ?df = Some df'
        \<and> cell_at df' ''Date'' 0 = Ts jan05
        \<and> cell_at df' ''Container Name'' 0 = Str ''ACME January05''"
    by (intro exI conjI)
  with 1 2 3 show ?thesis by (intro conjI)
qed

subsection \<open>The importer names that the aggregates use\<close>

lemma py_str_scorer [simp]: "py_str (L\<lparr>token_sort_ratio := scorer\<rparr>) = py_str L"
  by (auto simp: py_str_def fun_eq_iff split: cell.splits)

lemma lib_scorer_irrelevant [simp]:
  "astype_str (L\<lparr>token_sort_ratio := scorer\<rparr>) = astype_str L"
  "pd_to_datetime (L\<lparr>token_sort_ratio := scorer\<rparr>) = pd_to_datetime L"
  "pd_to_numeric (L\<lparr>token_sort_ratio := scorer\<rparr>) = pd_to_numeric L"
  "normalize_name (L\<lparr>token_sort_ratio := scorer\<rparr>) = normalize_name L"
  "agg_sum (L\<lparr>token_sort_ratio := scorer\<rparr>) = agg_sum L"
  by (auto simp: astype_str_def pd_to_datetime_def to_datetime_values_def pd_to_numeric_def
      normalize_name_def py_upper_def agg_sum_def fun_eq_iff)

lemma normalize_scorer_irrelevant:
  "normalize_importer_names (L\<lparr>token_sort_ratio := scorer\<rparr>) threshold' df
     = normalize_importer_names L threshold df"
  by (simp add: normalize_importer_names_general split: option.splits)

lemma derive_scorer_irrelevant: "derive (L\<lparr>token_sort_ratio := scorer\<rparr>) df = derive L df"
  by (simp add: derive_def normalize_scorer_irrelevant[where threshold = 90 and threshold' = 90])

lemma report_scorer_irrelevant:
  "report (L\<lparr>token_sort_ratio := scorer\<rparr>) all_data = report L all_data"
  by (simp add: report_def derive_scorer_irrelevant weight_per_product_def
      shipment_cost_per_container_def revenue_per_importer_def)

lemma run_scorer_irrelevant: "run (L\<lparr>token_sort_ratio := scorer\<rparr>) files = run L files"
  by (simp add: run_def report_scorer_irrelevant split: prod.splits)

lemma group_keys_one: "length kv = n \<Longrightarrow> group_keys [kv] n = map (\<lambda>c. [c]) kv"
  by (simp add: group_keys_def list_eq_iff_nth_eq)

lemma groupby_one_key:
  assumes "get_col df k = Some kv" "get_col df col = Some vals" "length kv = nrows df"
  shows "groupby_agg df [k] col agg out =
       Some [(k, map (\<lambda>g. g ! 0) (groups_of (map (\<lambda>c. [c]) kv))),
             (out, map (\<lambda>g. agg vals (group_values (map (\<lambda>c. [c]) kv) vals g))
                       (groups_of (map (\<lambda>c. [c]) kv)))]"
  using assms by (simp add: groupby_agg_def enumerate_eq_zip group_keys_one Let_def)

lemma set_groups_of: "set (groups_of keys) = {k \<in> set keys. NaN \<notin> set k}"
  by (auto simp: groups_of_def)


text \<open>
  C10: \<^verbatim>\<open>normalize_importer_names\<close> changes no column but Normalized_Importer, and its result
  does not depend on the scorer or the threshold: the mapping is computed and dropped. The
  Importer column of the derived table (of a unified table without repeated labels whose Date
  column parses to a datetime column) is the raw importer, trimmed and in upper case, the
  keys of the Total Value per Importer aggregate are the values of that column, and no
  output of a run depends on the scorer.
\<close>

theorem importer_not_canonicalised:
  "(\<forall>df'. normalize_importer_names L threshold df = Some df' \<longrightarrow>
        get_col df' ''Importer'' = get_col df ''Importer''
      \<and> (\<forall>c. c \<noteq> ''Normalized_Importer'' \<longrightarrow> get_col df' c = get_col df c)
      \<and> normalize_importer_names (L\<lparr>token_sort_ratio := scorer\<rparr>) threshold' df = Some df')
   \<and> (unified_ok df \<longrightarrow> datetimelike L (col_of df ''Date'') \<longrightarrow>
        (\<exists>df' t. derive L df = Some df'
           \<and> col_of df' ''Importer'' =
               map (\<lambda>c. Str (str_upper (str_strip (py_str L c)))) (col_of df ''Importer'')
           \<and> revenue_per_importer L df' = Some t
           \<and> set (col_of t ''Importer'') = set (col_of df' ''Importer'')))
   \<and> run (L\<lparr>token_sort_ratio := scorer\<rparr>) uploaded_files = run L uploaded_files"
proof -
  have a: "get_col df' ''Importer'' = get_col df ''Importer''
      \<and> (\<forall>c. c \<noteq> ''Normalized_Importer'' \<longrightarrow> get_col df' c = get_col df c)
      \<and> normalize_importer_names (L\<lparr>token_sort_ratio := scorer\<rparr>) threshold' df = Some df'"
    if "normalize_importer_names L threshold df = Some df'" for df'
  proof -
    from that have "normalize_importer_names (L\<lparr>token_sort_ratio := scorer\<rparr>) threshold' df = Some df'"
      by (simp add: normalize_scorer_irrelevant[where threshold = threshold])
    moreover from that have "get_col df' c = get_col df c" if "c \<noteq> ''Normalized_Importer''" for c
      using \<open>c \<noteq> ''Normalized_Importer''\<close>
      by (auto simp: normalize_importer_names_general get_col_set_col_other split: option.splits)
    ultimately show ?thesis by simp
  qed
  have b: "\<exists>df' t. derive L df = Some df'
           \<and> col_of df' ''Importer'' =
               map (\<lambda>c. Str (str_upper (str_strip (py_str L c)))) (col_of df ''Importer'')
           \<and> revenue_per_importer L df' = Some t
           \<and> set (col_of t ''Importer'') = set (col_of df' ''Importer'')"
    if ok: "unified_ok df" and dl: "datetimelike L (col_of df ''Date'')"
  proof -
    from derive_unified[OF ok dl] obtain df' imp val imp' where
      raw: "get_col df ''Importer'' = Some imp" and
      len: "length imp = nrows df" "length val = nrows df" and
      defs: "imp' = map Str (map str_upper (map str_strip (astype_str L imp)))" and
      d: "derive L df = Some df'" "has_rows (nrows df) df'" and
      cols: "get_col df' ''Importer'' = Some imp'"
        "get_col df' ''Value (USD)'' = Some (pd_to_numeric L val)"
      by blast
    from len d(2) have l: "length imp' = nrows df'" by (simp add: defs has_rows_def)
    note g = groupby_one_key[OF cols(1) cols(2) l, of "agg_sum L" "''Total Value(USD) per Importer''"]
    have "NaN \<notin> set imp'" by (auto simp: defs)
    then have "{k \<in> set (map (\<lambda>c. [c]) imp'). NaN \<notin> set k} = (\<lambda>c. [c]) ` set imp'"
      by auto
    then have "(\<lambda>g. g ! 0) ` {k \<in> set (map (\<lambda>c. [c]) imp'). NaN \<notin> set k} = set imp'"
      by (simp add: image_image)
    then have "set (map (\<lambda>g. g ! 0) (groups_of (map (\<lambda>c. [c]) imp'))) = set imp'"
      by (simp add: set_groups_of)
    with g cols(1) have "\<exists>t. revenue_per_importer L df' = Some t
           \<and> set (col_of t ''Importer'') = set (col_of df' ''Importer'')"
      by (simp add: revenue_per_importer_def col_of_def get_col_def)
    moreover from raw cols(1) have "col_of df' ''Importer'' =
               map (\<lambda>c. Str (str_upper (str_strip (py_str L c)))) (col_of df ''Importer'')"
      by (simp add: col_of_def defs astype_str_def)
    ultimately show ?thesis using d(1) by blast
  qed
  from a b show ?thesis by (simp add: run_scorer_irrelevant)
qed

theorem importer_not_canonicalised_witness:
  "normalize_importer_names example_lib 90 acme_row
     = Some (set_col acme_row ''Normalized_Importer'' [Str ''ACME CORP''])
   \<and> get_col (set_col acme_row ''Normalized_Importer'' [Str ''ACME CORP'']) ''Importer''
       = get_col acme_row ''Importer''
   \<and> normalize_importer_names (example_lib\<lparr>token_sort_ratio := flat_scorer\<rparr>) 50 acme_row
       = Some (set_col acme_row ''Normalized_Importer'' [Str ''ACME CORP''])
   \<and> unified_ok acme_row
   \<and> datetimelike example_lib (col_of acme_row ''Date'')
   \<and> (\<exists>df' t. derive example_lib acme_row = Some df'
         \<and> col_of df' ''Importer'' = [Str ''ACME CORP.'']
         \<and> revenue_per_importer example_lib df' = Some t
         \<and> set (col_of t ''Importer'') = {Str ''ACME CORP.''})"
proof -
  let ?X = "set_col acme_row ''Normalized_Importer'' [Str ''ACME CORP'']"
  have n: "normalize_importer_names example_lib 90 acme_row = Some ?X" by code_simp
  have ok: "unified_ok acme_row" unfolding acme_row_def by (rule ex_ok)
  note t = importer_not_canonicalised[where L = example_lib and threshold = 90 and df = acme_row
      and scorer = flat_scorer and threshold' = 50]
  from t[THEN conjunct1, rule_format, OF n]
  have a: "get_col ?X ''Importer'' = get_col acme_row ''Importer''"
    "normalize_importer_names (example_lib\<lparr>token_sort_ratio := flat_scorer\<rparr>) 50 acme_row = Some ?X"
    by simp_all
  have dl: "datetimelike example_lib (col_of acme_row ''Date'')" by (rule ex_datetimelike)
  from t[THEN conjunct2, THEN conjunct1, rule_format, OF ok dl] obtain df' t where
    b: "derive example_lib acme_row = Some df'"
      "col_of df' ''Importer'' =
         map (\<lambda>c. Str (str_upper (str_strip (py_str example_lib c)))) (col_of acme_row ''Importer'')"
      "revenue_per_importer example_lib df' = Some t"
      "set (col_of t ''Importer'') = set (col_of df' ''Importer'')"
    by (elim exE conjE)
  have "map (\<lambda>c. Str (str_upper (str_strip (py_str example_lib c)))) (col_of acme_row ''Importer'')
      = [Str ''ACME CORP.'']" by code_simp
  with b have "derive example_lib acme_row = Some df'
         \<and> col_of df' ''Importer'' = [Str ''ACME CORP.'']
         \<and> revenue_per_importer example_lib df' = Some t
         \<and> set (col_of t ''Importer'') = {Str ''ACME CORP.''}" by simp
  then have "\<exists>df' t. derive example_lib acme_row = Some df'
         \<and> col_of df' ''Importer'' = [Str ''ACME CORP.'']
         \<and> revenue_per_importer example_lib df' = Some t
         \<and> set (col_of t ''Importer'') = {Str ''ACME CORP.''}" by (intro exI)
  with n a ok dl show ?thesis by (intro conjI)
qed

subsection \<open>Skipped files\<close>

lemma ingest_loop_eq:
  "ingest_loop files (all_data, msgs) = (all_data @ accepted files, msgs @ shown files)"
proof (induction files arbitrary: all_data msgs)
  case Nil
  show ?case by (simp add: accepted_def shown_def)
next
  case (Cons f files)
  obtain d m where i: "ingest_file f = (d, m)" by (cases "ingest_file f")
  show ?case
  proof (cases d)
    case None
    with i Cons[of all_data "msgs @ m"] show ?thesis by (simp add: accepted_def shown_def)
  next
    case (Some df)
    with i Cons[of "all_data @ [df]" "msgs @ m"] show ?thesis
      by (simp add: accepted_def shown_def)
  qed
qed

lemma run_eq:
  "run L files =
     (if files = [] then Idle
      else if accepted files = [] then Stopped (shown files)
      else (case report L (accepted files) of
              None \<Rightarrow> Raised (shown files)
            | Some sheets \<Rightarrow> Download (shown files @ [Success]) sheets))"
  by (simp add: run_def ingest_loop_eq)

lemma artifact_run:
  "artifact (run L files) = (if accepted files = [] then None else report L (accepted files))"
proof (cases "files = []")
  case True
  then show ?thesis by (simp add: run_eq accepted_def)
next
  case False
  then show ?thesis by (simp add: run_eq split: option.splits)
qed

text \<open>
  A file is skipped exactly when it does not read, has no data row, has a label that is no
  text, or lacks a required column.
\<close>

lemma ingest_file_skipped:
  "fst (ingest_file f) = None \<longleftrightarrow>
     (case read_excel f of
        Inl e \<Rightarrow> True
      | Inr raw \<Rightarrow>
          df_empty (drop 1 raw) \<or> dropna_all_count (drop 1 raw) = 0
          \<or> (case strip_columns (drop 1 raw) of
                None \<Rightarrow> True
              | Some df \<Rightarrow> \<exists>c\<in>set required_columns. c \<notin> set (columns df)))"
  by (auto simp: ingest_file_def Let_def filter_empty_conv split: sum.splits option.splits)

text \<open>
  C6: when no uploaded file is appended to \<^verbatim>\<open>all_data\<close>, the run leaves no workbook, and with
  at least one file uploaded it halts at \<^verbatim>\<open>st.stop()\<close> having shown one warning or error
  message for each file.
\<close>

theorem no_valid_file_no_output:
  assumes "\<forall>file\<in>set uploaded_files. fst (ingest_file file) = None"
  shows "artifact (run L uploaded_files) = None
     \<and> (uploaded_files \<noteq> [] \<longrightarrow>
          run L uploaded_files = Stopped (concat (map (\<lambda>file. snd (ingest_file file)) uploaded_files)))
     \<and> (\<forall>file\<in>set uploaded_files. \<exists>m. snd (ingest_file file) = [m] \<and> m \<noteq> Success)"
proof -
  from assms have "accepted uploaded_files = []" by (simp add: accepted_def)
  then have "artifact (run L uploaded_files) = None"
    and "uploaded_files \<noteq> [] \<longrightarrow> run L uploaded_files = Stopped (shown uploaded_files)"
    by (simp_all add: artifact_run run_eq)
  moreover have "\<exists>m. snd (ingest_file f) = [m] \<and> m \<noteq> Success"
    if "fst (ingest_file f) = None" for f
    using that by (auto simp: ingest_file_def Let_def split: sum.splits option.splits if_splits)
  ultimately show ?thesis using assms by (simp add: shown_def)
qed

theorem no_valid_file_no_output_witness:
  "fst (ingest_file unreadable_file) = None \<and> fst (ingest_file short_file) = None
   \<and> artifact (run example_lib [unreadable_file, short_file]) = None
   \<and> run example_lib [unreadable_file, short_file] =
       Stopped [Error_reading ''bad.xlsx'' (Some ''not a workbook''),
                Warning_missing ''short.xlsx''
                  [''Master Bill Number'', ''Quantity'', ''Value(USD)'', ''Unit Price(USD)'',
                   ''Description'']]"
proof -
  have h: "\<forall>file\<in>set [unreadable_file, short_file]. fst (ingest_file file) = None"
    by code_simp
  have m: "concat (map (\<lambda>file. snd (ingest_file file)) [unreadable_file, short_file]) =
       [Error_reading ''bad.xlsx'' (Some ''not a workbook''),
        Warning_missing ''short.xlsx''
          [''Master Bill Number'', ''Quantity'', ''Value(USD)'', ''Unit Price(USD)'',
           ''Description'']]"
    by code_simp
  from no_valid_file_no_output[OF h, of example_lib] h m show ?thesis by simp
qed

text \<open>
  C7: a file that reads, whose labels can be trimmed and that then lacks a required column
  gets one warning (the warning for an empty file when it has no data row, the warning that
  lists the missing columns otherwise) and is not appended to \<^verbatim>\<open>all_data\<close>. The files after it
  are processed as before, and the workbook of the run is the one of the run without the file.
\<close>

theorem missing_columns_file_skipped:
  assumes "read_excel file = Inr raw" and "strip_columns (drop 1 raw) = Some df"
    and "\<exists>c\<in>set required_columns. c \<notin> set (columns df)"
  shows "ingest_file file =
           (None, [if df_empty (drop 1 raw) \<or> dropna_all_count (drop 1 raw) = 0
                   then Warning_empty (file_name file)
                   else Warning_missing (file_name file)
                          (filter (\<lambda>col. col \<notin> set (columns df)) required_columns)])
     \<and> fst (ingest_loop (before @ file # after) ([], [])) = fst (ingest_loop (before @ after) ([], []))
     \<and> snd (ingest_loop (before @ file # after) ([], []))
         = snd (ingest_loop before ([], [])) @ snd (ingest_file file) @ snd (ingest_loop after ([], []))
     \<and> artifact (run L (before @ file # after)) = artifact (run L (before @ after))"
proof -
  from assms(3) have "filter (\<lambda>col. col \<notin> set (columns df)) required_columns \<noteq> []"
    by (auto simp: filter_empty_conv)
  with assms(1,2) have i: "ingest_file file =
           (None, [if df_empty (drop 1 raw) \<or> dropna_all_count (drop 1 raw) = 0
                   then Warning_empty (file_name file)
                   else Warning_missing (file_name file)
                          (filter (\<lambda>col. col \<notin> set (columns df)) required_columns)])"
    by (simp add: ingest_file_def Let_def)
  then have a: "accepted (before @ file # after) = accepted (before @ after)"
    by (simp add: accepted_def)
  have "shown (before @ file # after) = shown before @ snd (ingest_file file) @ shown after"
    by (simp add: shown_def)
  with i a show ?thesis by (simp add: ingest_loop_eq artifact_run)
qed

theorem missing_columns_file_skipped_witness:
  "read_excel short_file = Inr [(NonStr, [Num 0]), (Name ''Importer '', [Str ''Acme'']),
                                (Name ''Date'', [Ts jan05])]
   \<and> strip_columns (drop 1 [(NonStr, [Num 0]), (Name ''Importer '', [Str ''Acme'']),
                             (Name ''Date'', [Ts jan05])])
       = Some [(''Importer'', [Str ''Acme'']), (''Date'', [Ts jan05])]
   \<and> (\<exists>c\<in>set required_columns. c \<notin> set (columns [(''Importer'', [Str ''Acme'']), (''Date'', [Ts jan05])]))
   \<and> ingest_file short_file =
       (None, [Warning_missing ''short.xlsx''
                  [''Master Bill Number'', ''Quantity'', ''Value(USD)'', ''Unit Price(USD)'',
                   ''Description'']])
   \<and> artifact (run example_lib ([] @ short_file # [good_file])) = artifact (run example_lib ([] @ [good_file]))
   \<and> artifact (run example_lib [good_file]) \<noteq> None"
proof -
  let ?raw = "[(NonStr, [Num 0]), (Name ''Importer '', [Str ''Acme'']), (Name ''Date'', [Ts jan05])]"
  let ?df = "[(''Importer'', [Str ''Acme'']), (''Date'', [Ts jan05])]"
  have 1: "read_excel short_file = Inr ?raw" by (simp add: short_file_def)
  have 2: "strip_columns (drop 1 ?raw) = Some ?df" by code_simp
  have 3: "\<exists>c\<in>set required_columns. c \<notin> set (columns ?df)" by code_simp
  note t = missing_columns_file_skipped[OF 1 2 3, of "[]" "[good_file]" example_lib]
  have w: "(if df_empty (drop 1 ?raw) \<or> dropna_all_count (drop 1 ?raw) = 0
                   then Warning_empty (file_name short_file)
                   else Warning_missing (file_name short_file)
                          (filter (\<lambda>col. col \<notin> set (columns ?df)) required_columns))
       = Warning_missing ''short.xlsx''
                  [''Master Bill Number'', ''Quantity'', ''Value(USD)'', ''Unit Price(USD)'',
                   ''Description'']" by code_simp
  have g: "artifact (run example_lib [good_file]) \<noteq> None" by code_simp
  from t w have "ingest_file short_file =
       (None, [Warning_missing ''short.xlsx''
                  [''Master Bill Number'', ''Quantity'', ''Value(USD)'', ''Unit Price(USD)'',
                   ''Description'']])" by (simp only:)
  moreover from t have "artifact (run example_lib ([] @ short_file # [good_file]))
      = artifact (run example_lib ([] @ [good_file]))" by (simp only:)
  ultimately show ?thesis using 1 2 3 g by (simp only: append_Nil simp_thms)
qed

subsection \<open>The order of the rows of a sheet\<close>

lemma mset_partition_list: "mset (filter P xs) + mset (filter (\<lambda>x. \<not> P x) xs) = mset xs"
  by (induction xs) auto

lemma mset_nargsort: "mset (nargsort_desc items) = mset [0..<length items]"
  using mset_partition_list[of "\<lambda>i. items ! i \<noteq> None" "[0..<length items]"]
  by (simp add: nargsort_desc_def Let_def)

lemma sorted_all_None:
  fixes f :: "'a \<Rightarrow> rat option"
  shows "\<forall>x\<in>set xs. f x = None \<Longrightarrow> sorted_wrt (\<ge>) (map f xs)"
  by (induction xs) auto

lemma sorted_nargsort:
  "sorted_wrt (\<ge>) (map (\<lambda>i. items ! i) (nargsort_desc items))"
proof -
  let ?A = "filter (\<lambda>i. items ! i \<noteq> None) [0..<length items]"
  let ?B = "filter (\<lambda>i. items ! i = None) [0..<length items]"
  have "sorted (map (\<lambda>i. items ! i) (sort_key (\<lambda>i. items ! i) (rev ?A)))"
    by (rule sorted_sort_key)
  then have 1: "sorted_wrt (\<ge>) (map (\<lambda>i. items ! i) (rev (sort_key (\<lambda>i. items ! i) (rev ?A))))"
    by (simp only: rev_map[symmetric] sorted_wrt_rev)
  have 2: "sorted_wrt (\<ge>) (map (\<lambda>i. items ! i) ?B)"
    by (rule sorted_all_None) simp
  have 3: "\<forall>x\<in>set (map (\<lambda>i. items ! i) (rev (sort_key (\<lambda>i. items ! i) (rev ?A)))).
           \<forall>y\<in>set (map (\<lambda>i. items ! i) ?B). x \<ge> y"
    by auto
  from 1 2 3 show ?thesis
    by (simp only: nargsort_desc_def Let_def map_append sorted_wrt_append)
qed

lemma set_nargsort: "set (nargsort_desc items) = {0..<length items}"
  using mset_nargsort[of items] by (metis mset_eq_setD set_upt)

lemma length_nargsort: "length (nargsort_desc items) = length items"
  using mset_nargsort[of items] by (metis mset_eq_length length_upt diff_zero)

lemma columns_take_rows: "columns (take_rows d idx) = columns d"
  by (induction d) (auto simp: take_rows_def columns_def)

lemma get_col_take_rows:
  "get_col (take_rows d idx) c = map_option (\<lambda>v. map (\<lambda>i. v ! i) idx) (get_col d c)"
proof -
  have f: "filter (\<lambda>(k, v). k = c) (take_rows d idx) = take_rows (filter (\<lambda>(k, v). k = c) d) idx"
    by (induction d) (auto simp: take_rows_def)
  show ?thesis
    unfolding get_col_def f by (auto simp: take_rows_def split: list.splits)
qed

lemma rows_take_rows:
  assumes "d \<noteq> []"
  shows "rows (take_rows d idx) = map (row_at d) idx"
proof -
  from assms have n: "nrows (take_rows d idx) = length idx"
    by (cases d) (auto simp: take_rows_def nrows_def)
  have "row_at (take_rows d idx) j = row_at d (idx ! j)" if "j < length idx" for j
    using that by (simp add: row_at_def take_rows_def case_prod_beta comp_def)
  then have "map (row_at (take_rows d idx)) [0..<length idx] = map (\<lambda>j. row_at d (idx ! j)) [0..<length idx]"
    by simp
  also have "\<dots> = map (row_at d) (map (\<lambda>j. idx ! j) [0..<length idx])" by simp
  also have "\<dots> = map (row_at d) idx" by (simp only: map_nth)
  finally show ?thesis by (simp add: rows_def n)
qed

lemma keyword_in_name: "is_sort_candidate (col, v) \<Longrightarrow> col \<noteq> []"
  by (auto simp: is_sort_candidate_def sort_keywords_def str_lower_def)

lemma drop_listed_subset: "set (drop_listed df dc) \<subseteq> set df"
  by (auto simp: drop_listed_def split: option.splits)

lemma distinct_drop_listed: "distinct (columns df) \<Longrightarrow> distinct (columns (drop_listed df dc))"
  by (auto simp: drop_listed_def columns_def distinct_map_filter split: option.splits)

lemma nrows_sublist:
  assumes "rectangular df" "set d \<subseteq> set df" "d \<noteq> []"
  shows "nrows d = nrows df"
proof -
  from assms(3) obtain c v rest where d: "d = (c, v) # rest" by (cases d) auto
  with assms(2) have "(c, v) \<in> set df" by auto
  with assms(1) have "length v = nrows df" by (auto simp: rectangular_def list_all_iff)
  with d show ?thesis by (simp add: nrows_def)
qed

text \<open>
  C5: the table handed to \<^verbatim>\<open>to_excel\<close>, after the listed columns are dropped. When no column
  has a keyword in its lower-cased name and a numeric dtype, it is the table as it was. Otherwise,
  with \<open>col\<close> the first such column in column order, it has the same columns and the same rows
  in another order, and its column \<open>col\<close> is sorted descending, the \<^verbatim>\<open>NaN\<close> cells last (\<open>None\<close>
  is the least value of the order on \<open>rat option\<close>).
\<close>

theorem write_sheet_sorted:
  assumes "rectangular df" "distinct (columns df)"
  shows "case filter is_sort_candidate (drop_listed df drop_columns) of
           [] \<Rightarrow> write_sheet df drop_columns = Some (drop_listed df drop_columns)
         | (col, v) # _ \<Rightarrow>
             (\<exists>out w. write_sheet df drop_columns = Some out
                \<and> columns out = columns (drop_listed df drop_columns)
                \<and> mset (rows out) = mset (rows (drop_listed df drop_columns))
                \<and> get_col out col = Some w \<and> mset w = mset v
                \<and> sorted_wrt (\<ge>) (map num_of w))"
proof (cases "filter is_sort_candidate (drop_listed df drop_columns)")
  case Nil
  with distinct_drop_listed[OF assms(2), of drop_columns] show ?thesis
    by (simp add: write_sheet_def find_sort_col_def Let_def)
next
  case (Cons p rest)
  obtain col v where p: "p = (col, v)" by (cases p)
  let ?d = "drop_listed df drop_columns"
  let ?idx = "nargsort_desc (map num_of v)"
  from Cons p have "(col, v) \<in> set (filter is_sort_candidate ?d)" by simp
  then have mem: "(col, v) \<in> set ?d" and cand: "is_sort_candidate (col, v)"
    by simp_all
  from mem have ne: "?d \<noteq> []" by auto
  from assms(2) have dd: "distinct (columns ?d)" by (rule distinct_drop_listed)
  from dd mem have g: "get_col ?d col = Some v" by (rule get_col_mem_distinct)
  from cand have "col \<noteq> []" by (rule keyword_in_name)
  with Cons p g dd have w: "write_sheet df drop_columns = Some (take_rows ?d ?idx)"
    by (simp add: write_sheet_def find_sort_col_def sort_values_desc_def columns_take_rows Let_def)
  from mem drop_listed_subset[of df drop_columns] assms(1) have lv: "length v = nrows df"
    by (auto simp: rectangular_def list_all_iff)
  from nrows_sublist[OF assms(1) drop_listed_subset ne] have nd: "nrows ?d = nrows df" .
  have "mset (rows (take_rows ?d ?idx)) = image_mset (row_at ?d) (mset ?idx)"
    by (simp add: rows_take_rows[OF ne])
  also have "\<dots> = image_mset (row_at ?d) (mset [0..<nrows ?d])"
    by (simp only: mset_nargsort length_map lv nd)
  also have "\<dots> = mset (rows ?d)" by (simp add: rows_def)
  finally have r: "mset (rows (take_rows ?d ?idx)) = mset (rows ?d)" .
  have "mset (map (\<lambda>i. v ! i) ?idx) = image_mset (\<lambda>i. v ! i) (mset [0..<length v])"
    by (simp only: mset_map mset_nargsort length_map)
  also have "\<dots> = mset (map (\<lambda>i. v ! i) [0..<length v])" by simp
  also have "\<dots> = mset v" by (simp only: map_nth)
  finally have m: "mset (map (\<lambda>i. v ! i) ?idx) = mset v" .
  have e: "map num_of (map (\<lambda>i. v ! i) ?idx) = map (\<lambda>i. map num_of v ! i) ?idx"
    using set_nargsort[of "map num_of v"] by auto
  have s: "sorted_wrt (\<ge>) (map num_of (map (\<lambda>i. v ! i) ?idx))"
    unfolding e by (rule sorted_nargsort)
  from w r m s g show ?thesis
    by (simp add: Cons p columns_take_rows get_col_take_rows)
qed

theorem write_sheet_sorted_witness:
  "rectangular cost_sheet \<and> distinct (columns cost_sheet)
   \<and> (\<exists>out w. write_sheet cost_sheet None = Some out
         \<and> columns out = columns (drop_listed cost_sheet None)
         \<and> mset (rows out) = mset (rows (drop_listed cost_sheet None))
         \<and> get_col out ''Total Shipment Cost (USD)'' = Some w
         \<and> mset w = mset [Num 200, NaN, Num 500]
         \<and> sorted_wrt (\<ge>) (map num_of w))"
proof -
  have 1: "rectangular cost_sheet" by code_simp
  have 2: "distinct (columns cost_sheet)" by code_simp
  have f: "filter is_sort_candidate (drop_listed cost_sheet None)
      = [(''Total Shipment Cost (USD)'', [Num 200, NaN, Num 500])]" by code_simp
  from write_sheet_sorted[OF 1 2, of None] 1 2 show ?thesis
    by (simp only: f list.case prod.case simp_thms)
qed

lemma write_sheet_example:
  "write_sheet cost_sheet None =
     Some [(''Container Name'', [Str ''MB3'', Str ''MB1'', Str ''MB2'']),
           (''Total Shipment Cost (USD)'', [Num 500, Num 200, NaN])]"
  by code_simp

subsection \<open>The totals of the Weight per Product aggregate\<close>





lemma groupby_two_keys:
  assumes "get_col df k1 = Some a" "get_col df k2 = Some b" "get_col df col = Some vals"
  shows "groupby_agg df [k1, k2] col agg out =
       Some [(k1, map (\<lambda>g. g ! 0) (groups_of (group_keys [a, b] (nrows df)))),
             (k2, map (\<lambda>g. g ! 1) (groups_of (group_keys [a, b] (nrows df)))),
             (out, map (\<lambda>g. agg vals (group_values (group_keys [a, b] (nrows df)) vals g))
                       (groups_of (group_keys [a, b] (nrows df))))]"
  using assms by (simp add: groupby_agg_def enumerate_eq_zip Let_def)










lemma good_table_totals:
  "aggregate_weight example_lib good_table (Str ''MB1'') = Some 100
   \<and> aggregate_weight example_lib good_table (Str ''nan'') = Some 0
   \<and> derived_weight example_lib good_table (Str ''nan'') = Some 7"
  by code_simp

subsection \<open>The unified table of a run\<close>

lemma rectangular_iff: "rectangular df \<longleftrightarrow> (\<forall>(c, v)\<in>set df. length v = nrows df)"
  by (simp add: rectangular_def list_all_iff)

lemma rectangular_values:
  "rectangular df \<longleftrightarrow> (\<forall>v\<in>set (map snd df). length v = nrows df)"
  by (auto simp: rectangular_def list_all_iff)

lemma nrows_values: "nrows df = (case map snd df of [] \<Rightarrow> 0 | v # _ \<Rightarrow> length v)"
  by (cases df) (auto simp: nrows_def)

lemma rectangular_drop1: "rectangular raw \<Longrightarrow> rectangular (drop 1 raw)"
proof -
  assume r: "rectangular raw"
  have "length v = nrows (drop 1 raw)" if "v \<in> set (map snd (drop 1 raw))" for v
  proof -
    from that have ne: "drop 1 raw \<noteq> []" by auto
    then obtain a b rest where raw: "raw = a # b # rest" by (cases raw; cases "tl raw") auto
    from that have "v \<in> set (map snd raw)" by (auto dest: in_set_dropD)
    with r have "length v = nrows raw" by (simp only: rectangular_values)
    moreover from r raw have "length (snd b) = nrows raw" by (simp add: rectangular_values)
    ultimately show ?thesis using raw by (simp add: nrows_values)
  qed
  then show ?thesis by (simp only: rectangular_values) simp
qed

lemma strip_columns_values:
  "strip_columns df = Some df' \<Longrightarrow> map snd df' = map snd df"
  by (induction df arbitrary: df' rule: strip_columns.induct) auto

lemma rectangular_snd:
  assumes "map snd df' = map snd df" "rectangular df"
  shows "rectangular df'"
  using assms by (simp add: rectangular_values nrows_values)


lemma ingest_file_accepts:
  assumes "ingest_file f = (Some df, m)" "read_excel f = Inr raw" "rectangular raw"
  shows "rectangular df \<and> set required_columns \<subseteq> set (columns df)"
proof -
  from assms(1,2) obtain df0 where
    s: "strip_columns (drop 1 raw) = Some df0" and
    req: "filter (\<lambda>col. col \<notin> set (columns df0)) required_columns = []" and
    df: "df = set_col df0 ''source_file'' (replicate (nrows df0) (Str (file_name f)))"
    by (auto simp: ingest_file_def Let_def split: option.splits if_splits)
  from assms(3) have "rectangular (drop 1 raw)" by (rule rectangular_drop1)
  with strip_columns_values[OF s] have "rectangular df0" by (rule rectangular_snd)
  then have "rectangular df" unfolding df by (rule rectangular_set_col) simp
  moreover from req have "set required_columns \<subseteq> set (columns df0)"
    by (auto simp: filter_empty_conv)
  then have "set required_columns \<subseteq> set (columns df)"
    unfolding df by (auto simp: columns_set_col)
  ultimately show ?thesis by simp
qed

lemma concat_column_length:
  assumes "\<forall>df\<in>set dfs. rectangular df"
  shows "length (concat (map (\<lambda>df. case get_col df c of
                                      Some v \<Rightarrow> v
                                    | None \<Rightarrow> replicate (nrows df) NaN) dfs))
         = sum_list (map nrows dfs)"
  using assms
proof (induction dfs)
  case Nil
  show ?case by simp
next
  case (Cons df dfs)
  then have "length (case get_col df c of Some v \<Rightarrow> v | None \<Rightarrow> replicate (nrows df) NaN) = nrows df"
    by (auto split: option.splits dest: get_col_length)
  with Cons show ?case by simp
qed

lemma pd_concat_ok:
  assumes "\<forall>df\<in>set dfs. rectangular df \<and> distinct (columns df)
              \<and> set required_columns \<subseteq> set (columns df)"
    and "dfs \<noteq> []"
  shows "\<exists>u. pd_concat dfs = Some u \<and> unified_ok u"
proof -
  let ?n = "sum_list (map nrows dfs)"
  let ?u = "map (\<lambda>c. (c, concat (map (\<lambda>df. case get_col df c of
                                                 Some v \<Rightarrow> v
                                               | None \<Rightarrow> replicate (nrows df) NaN) dfs)))
                (unique (concat (map columns dfs)))"
  from assms have u: "pd_concat dfs = Some ?u" by (simp add: pd_concat_def list_all_iff)
  from assms(1) have r: "\<forall>df\<in>set dfs. rectangular df" by simp
  have len: "length v = ?n" if "v \<in> set (map snd ?u)" for v
    using that concat_column_length[OF r] by auto
  have "rectangular ?u"
  proof (cases ?u)
    case Nil
    then show ?thesis by (simp add: rectangular_def)
  next
    case (Cons a rest)
    then have "nrows ?u = ?n" using len[of "snd a"] by (simp add: nrows_values)
    with len show ?thesis by (simp only: rectangular_values) simp
  qed
  moreover have c: "columns ?u = unique (concat (map columns dfs))"
    by (simp add: columns_def comp_def)
  then have "distinct (columns ?u)" by simp
  moreover have "set required_columns \<subseteq> set (columns ?u)"
  proof -
    from assms(2) obtain df where "df \<in> set dfs" by (cases dfs) auto
    with assms(1) have "set required_columns \<subseteq> set (columns df)" by simp
    moreover from \<open>df \<in> set dfs\<close> have "set (columns df) \<subseteq> set (columns ?u)"
      unfolding c by auto
    ultimately show ?thesis by blast
  qed
  ultimately have "unified_ok ?u" by (auto simp: unified_ok_def list_all_iff)
  with u show ?thesis by blast
qed

text \<open>
  The unified table of a run: when the tables read from the uploaded files are rectangular, no
  accepted table has a label twice and some file is accepted, the concatenation is a unified
  table as the statements above take it.
\<close>

lemma accepted_unified_ok:
  assumes "\<forall>f\<in>set files. \<forall>raw. read_excel f = Inr raw \<longrightarrow> rectangular raw"
    and "\<forall>df\<in>set (accepted files). distinct (columns df)"
    and "accepted files \<noteq> []"
  shows "\<exists>u. pd_concat (accepted files) = Some u \<and> unified_ok u"
proof (rule pd_concat_ok[OF _ assms(3)], rule ballI)
  fix df assume a: "df \<in> set (accepted files)"
  then obtain f where f: "f \<in> set files" "fst (ingest_file f) = Some df"
    by (auto simp: accepted_def split: option.splits)
  then obtain m where i: "ingest_file f = (Some df, m)" by (cases "ingest_file f") auto
  then obtain raw where raw: "read_excel f = Inr raw"
    by (auto simp: ingest_file_def split: sum.splits)
  with assms(1) f(1) have "rectangular raw" by blast
  with i raw have "rectangular df \<and> set required_columns \<subseteq> set (columns df)"
    by (rule ingest_file_accepts)
  with assms(2) a show "rectangular df \<and> distinct (columns df)
      \<and> set required_columns \<subseteq> set (columns df)" by simp
qed

lemma write_sheet_total:
  assumes "distinct (columns df)"
  shows "\<exists>out. write_sheet df drop_columns = Some out"
proof -
  let ?d = "drop_listed df drop_columns"
  from assms have dd: "distinct (columns ?d)" by (rule distinct_drop_listed)
  show ?thesis
  proof (cases "filter is_sort_candidate ?d")
    case Nil
    with dd show ?thesis by (simp add: write_sheet_def find_sort_col_def Let_def)
  next
    case (Cons p rest)
    obtain col v where p: "p = (col, v)" by (cases p)
    from Cons p have "(col, v) \<in> set (filter is_sort_candidate ?d)" by simp
    then have "(col, v) \<in> set ?d" and "is_sort_candidate (col, v)" by simp_all
    from this(2) have "col \<noteq> []" by (rule keyword_in_name)
    moreover from dd \<open>(col, v) \<in> set ?d\<close> have "get_col ?d col = Some v"
      by (rule get_col_mem_distinct)
    ultimately show ?thesis using Cons p dd
      by (simp add: write_sheet_def find_sort_col_def sort_values_desc_def columns_take_rows Let_def)
  qed
qed

lemma report_total:
  assumes "pd_concat all_data = Some u" and "unified_ok u"
    and "datetimelike L (col_of u ''Date'')"
  shows "\<exists>sheets. report L all_data = Some sheets"
proof -
  from derive_unified[OF assms(2,3)] obtain df' imp cn wt vu sc where
    d: "derive L u = Some df'" and hr: "has_rows (nrows u) df'" and dist: "distinct (columns df')" and
    cols: "get_col df' ''Importer'' = Some imp" "get_col df' ''Container Name'' = Some cn"
      "get_col df' ''Weight (kgs)'' = Some wt" "get_col df' ''Value (USD)'' = Some vu"
      "get_col df' ''Shipment Cost'' = Some sc" and
    rest: "\<forall>c. c \<notin> set derived_labels \<longrightarrow> get_col df' c = get_col u c"
    by blast
  obtain D where "get_col u ''Description'' = Some D"
    using unified_ok_col[OF assms(2), of "''Description''"] by (auto simp: required_columns_def)
  with rest have desc: "get_col df' ''Description'' = Some D"
    by (simp add: derived_labels_def)
  from hr have rect: "rectangular df'" by (simp add: has_rows_def)
  note len = get_col_length[OF rect cols(1)] get_col_length[OF rect cols(2)]
  obtain products where p: "products_per_container df' = Some products" "distinct (columns products)"
    using groupby_one_key[OF cols(2) desc len(2), of agg_products "''Products List''"]
    by (simp add: products_per_container_def get_col_def insert_col_def columns_def)
  obtain weight where w: "weight_per_product L df' = Some weight" "distinct (columns weight)"
    using groupby_two_keys[OF cols(2) desc cols(3), of "agg_sum L" "''Weight (kgs)''"]
    by (simp add: weight_per_product_def columns_def)
  obtain shipment_cost where sh: "shipment_cost_per_container L df' = Some shipment_cost"
    "distinct (columns shipment_cost)"
    using groupby_one_key[OF cols(2) cols(5) len(2), of "agg_sum L" "''Total Shipment Cost (USD)''"]
    by (simp add: shipment_cost_per_container_def columns_def)
  obtain revenue where r: "revenue_per_importer L df' = Some revenue" "distinct (columns revenue)"
    using groupby_one_key[OF cols(1) cols(4) len(1), of "agg_sum L" "''Total Value(USD) per Importer''"]
    by (simp add: revenue_per_importer_def columns_def)
  obtain s1 s2 s3 s4 s5 where
    "write_sheet df' (Some ignore_columns_in_cleaned_sheet) = Some s1"
    "write_sheet products None = Some s2" "write_sheet weight None = Some s3"
    "write_sheet shipment_cost None = Some s4" "write_sheet revenue None = Some s5"
    using write_sheet_total[OF dist] write_sheet_total[OF p(2)] write_sheet_total[OF w(2)]
      write_sheet_total[OF sh(2)] write_sheet_total[OF r(2)] by metis
  with assms(1) d p(1) w(1) sh(1) r(1) show ?thesis by (simp add: report_def)
qed

text \<open>
  With rectangular tables read from the files, no label twice in an accepted table and a Date
  column that parses to a datetime column, no step of a run raises: it does nothing, halts for
  want of data, or offers the workbook.
\<close>

lemma run_never_raises:
  assumes "\<forall>f\<in>set files. \<forall>raw. read_excel f = Inr raw \<longrightarrow> rectangular raw"
    and "\<forall>df\<in>set (accepted files). distinct (columns df)"
    and "\<forall>u. pd_concat (accepted files) = Some u \<longrightarrow> datetimelike L (col_of u ''Date'')"
  shows "run L files \<noteq> Raised msgs"
proof (cases "accepted files = []")
  case True
  then show ?thesis by (simp add: run_eq)
next
  case False
  from accepted_unified_ok[OF assms(1,2) False] obtain u where
    u: "pd_concat (accepted files) = Some u" "unified_ok u" by blast
  with assms(3) have "datetimelike L (col_of u ''Date'')" by simp
  from report_total[OF u this]
  show ?thesis using False by (auto simp: run_eq)
qed

end
